theory Spec2Isabelle
  imports Main
begin

section \<open>Go runtime values\<close>

text \<open>
  Package \<open>em\<close> (file \<open>em.go\<close>) is a fluent builder around the mailbuilder library.
  Its methods have a pointer receiver and mutate the builder and the two multipart
  containers in place, so the model keeps builders and containers in a store and passes
  addresses around. A Go run-time panic is the left summand of every result.
\<close>

datatype panic = NilPointerDereference | IntegerDivideByZero | SliceBoundsOutOfRange

text \<open>A Go \<open>error\<close> made by \<open>errors.New\<close> is its text; \<open>nil\<close> is \<open>None\<close>.\<close>

type_synonym error = "string option"

text \<open>A pointer is an address in a store; \<open>nil\<close> is \<open>None\<close>.\<close>

type_synonym ptr = "nat option"

definition newline :: char where
  "newline = CHR 0x0A"

definition deref :: "'a list \<Rightarrow> ptr \<Rightarrow> panic + 'a" where
  "deref h p =
     (case p of
        None \<Rightarrow> Inl NilPointerDereference
      | Some a \<Rightarrow> if a < length h then Inr (h ! a) else Inl NilPointerDereference)"

text \<open>The slice expressions \<open>s[lo:hi]\<close> and \<open>s[lo:]\<close> of a string, with Go's bounds check.\<close>

definition slice :: "string \<Rightarrow> int \<Rightarrow> int \<Rightarrow> panic + string" where
  "slice s lo hi =
     (if 0 \<le> lo \<and> lo \<le> hi \<and> hi \<le> int (length s)
      then Inr (take (nat (hi - lo)) (drop (nat lo) s))
      else Inl SliceBoundsOutOfRange)"

definition slice_from :: "string \<Rightarrow> int \<Rightarrow> panic + string" where
  "slice_from s lo = slice s lo (int (length s))"

text \<open>
  Go's integer quotient truncates toward zero and panics on a zero divisor. The operands
  in \<open>Attach\<close> are a string length and the line width; every product formed from the
  quotient is checked against the string length by \<open>slice\<close>, so the 64-bit range is never
  left and unbounded integers compute what the machine does.
\<close>

definition go_quo :: "int \<Rightarrow> int \<Rightarrow> panic + int" where
  "go_quo a b =
     (if b = 0 then Inl IntegerDivideByZero
      else Inr (sgn a * sgn b * (\<bar>a\<bar> div \<bar>b\<bar>)))"

section \<open>The mailbuilder data model\<close>

text \<open>
  Modelled from the spec: the types of the imported mailbuilder package (Address,
  SimplePart, MultiPart, Message) and their operations are not part of this repository.
  The spec's data model gives an address as email and display name, a leaf as headers and
  content, a container as a type and an ordered sequence of children, and a message as
  from, to, cc, bcc, subject and body; its contract table says that adding a recipient,
  a header or a part appends, in call order, and that the recipient list handed to the
  transport is To, then Cc, then Bcc. A container is shared by pointer
  (\<open>Mixed.AddPart(this.Alt)\<close> stores the pointer, and \<open>Alt\<close> is extended afterwards),
  so a child is either a leaf value or the address of a container.
\<close>

record mbAddress =
  Email :: string
  Name :: string

record mbSimplePart =
  Headers :: "(string \<times> string) list"
  Content :: string

datatype BodyPart = Simple mbSimplePart | Multi nat

record mbMultiPart =
  ContentType :: string
  Parts :: "BodyPart list"

record mbMessage =
  msgFrom :: mbAddress
  msgTo :: "mbAddress list"
  msgCc :: "mbAddress list"
  msgBcc :: "mbAddress list"
  msgSubject :: string
  msgBody :: ptr

definition NewAddress :: "string \<Rightarrow> string \<Rightarrow> mbAddress" where
  "NewAddress addr name = \<lparr>Email = addr, Name = name\<rparr>"

definition NewMessage :: mbMessage where
  "NewMessage =
     \<lparr>msgFrom = \<lparr>Email = [], Name = []\<rparr>, msgTo = [], msgCc = [], msgBcc = [],
      msgSubject = [], msgBody = None\<rparr>"

definition AddTo :: "mbMessage \<Rightarrow> mbAddress \<Rightarrow> mbMessage" where
  "AddTo m a = m\<lparr>msgTo := msgTo m @ [a]\<rparr>"

definition AddCc :: "mbMessage \<Rightarrow> mbAddress \<Rightarrow> mbMessage" where
  "AddCc m a = m\<lparr>msgCc := msgCc m @ [a]\<rparr>"

definition AddBcc :: "mbMessage \<Rightarrow> mbAddress \<Rightarrow> mbMessage" where
  "AddBcc m a = m\<lparr>msgBcc := msgBcc m @ [a]\<rparr>"

definition SetBody :: "mbMessage \<Rightarrow> ptr \<Rightarrow> mbMessage" where
  "SetBody m b = m\<lparr>msgBody := b\<rparr>"

text \<open>The flattened recipient list: To, then Cc, then Bcc.\<close>

definition Recipients :: "mbMessage \<Rightarrow> string list" where
  "Recipients m = map Email (msgTo m @ msgCc m @ msgBcc m)"

definition NewSimplePart :: mbSimplePart where
  "NewSimplePart = \<lparr>Headers = [], Content = []\<rparr>"

definition AddHeader :: "mbSimplePart \<Rightarrow> string \<Rightarrow> string \<Rightarrow> mbSimplePart" where
  "AddHeader p k v = p\<lparr>Headers := Headers p @ [(k, v)]\<rparr>"

section \<open>The builder\<close>

record EmailUser =
  Username :: string
  Password :: string
  EmailServer :: string
  Port :: int

definition zeroEmailUser :: EmailUser where
  "zeroEmailUser = \<lparr>Username = [], Password = [], EmailServer = [], Port = 0\<rparr>"

text \<open>The value of \<open>smtp.PlainAuth(identity, username, password, host)\<close>.\<close>

type_synonym auth = "string \<times> string \<times> string \<times> string"

record EM =
  EmailCfgFn :: string
  EmailConfig :: EmailUser
  SmtpAuth :: "auth option"
  Message :: "mbMessage option"
  Alt :: ptr
  Mixed :: ptr
  Err :: error
  altSetup :: bool
  lineMaxLength :: int
  printErrors :: bool

text \<open>
  What \<open>smtp.SendMail\<close> is called with. \<open>Message.Bytes()\<close> serialises the message and
  every container reachable from its body at the moment of the call; the request keeps
  the message and the containers as they are then.
\<close>

record SendReq =
  srAddr :: string
  srAuth :: "auth option"
  srFrom :: string
  srTo :: "string list"
  srMsg :: mbMessage
  srParts :: "mbMultiPart list"

text \<open>
  The imported packages the builder calls, taken as parameters: \<open>ioutil.ReadFile\<close>
  (contents and error), \<open>json.Unmarshal\<close> into an EmailUser (the value it leaves and
  its error), \<open>ms.HomeDir\<close>, \<open>filepath.Base\<close>, \<open>filepath.Ext\<close>, the table behind
  \<open>mime.TypeByExtension\<close>, \<open>base64.StdEncoding.EncodeToString\<close>, the \<open>%q\<close> verb of
  \<open>fmt.Sprintf\<close>, \<open>strconv.Itoa\<close> and \<open>smtp.SendMail\<close>.
\<close>

record Env =
  ReadFile :: "string \<Rightarrow> string \<times> error"
  Unmarshal :: "string \<Rightarrow> EmailUser \<Rightarrow> EmailUser \<times> error"
  HomeDir :: string
  Base :: "string \<Rightarrow> string"
  Ext :: "string \<Rightarrow> string"
  mimeTypes :: "string \<Rightarrow> string option"
  EncodeToString :: "string \<Rightarrow> string"
  Quote :: "string \<Rightarrow> string"
  Itoa :: "int \<Rightarrow> string"
  SendMail :: "SendReq \<Rightarrow> error"

text \<open>
  \<open>mime.TypeByExtension\<close> returns the type associated with the extension, and the empty
  string when the extension has no associated type.
\<close>

definition TypeByExtension :: "Env \<Rightarrow> string \<Rightarrow> string" where
  "TypeByExtension env ext = (case mimeTypes env ext of None \<Rightarrow> [] | Some t \<Rightarrow> t)"

text \<open>
  The store: every builder and every multipart container allocated so far, the calls made
  to the SMTP transport, and what was printed.
\<close>

record World =
  builders :: "EM list"
  multiparts :: "mbMultiPart list"
  transport :: "SendReq list"
  console :: "string list"

definition emptyWorld :: World where
  "emptyWorld = \<lparr>builders = [], multiparts = [], transport = [], console = []\<rparr>"

definition store :: "ptr \<Rightarrow> EM \<Rightarrow> World \<Rightarrow> World" where
  "store this em w =
     (case this of None \<Rightarrow> w | Some a \<Rightarrow> w\<lparr>builders := (builders w)[a := em]\<rparr>)"

definition Printf :: "string \<Rightarrow> World \<Rightarrow> World" where
  "Printf s w = w\<lparr>console := console w @ [s]\<rparr>"

definition NewMultiPart :: "string \<Rightarrow> World \<Rightarrow> nat \<times> World" where
  "NewMultiPart t w =
     (length (multiparts w),
      w\<lparr>multiparts := multiparts w @ [\<lparr>ContentType = t, Parts = []\<rparr>]\<rparr>)"

definition AddPart :: "ptr \<Rightarrow> BodyPart \<Rightarrow> World \<Rightarrow> panic + World" where
  "AddPart mp part w =
     (case mp of
        None \<Rightarrow> Inl NilPointerDereference
      | Some a \<Rightarrow>
          if a < length (multiparts w)
          then Inr (w\<lparr>multiparts :=
                 (multiparts w)[a := (multiparts w ! a)\<lparr>Parts := Parts (multiparts w ! a) @ [part]\<rparr>]\<rparr>)
          else Inl NilPointerDereference)"

subsection \<open>Construction\<close>

definition initEM :: "EM \<Rightarrow> EM" where
  "initEM x =
     x\<lparr>SmtpAuth := Some ([], Username (EmailConfig x), Password (EmailConfig x),
                          EmailServer (EmailConfig x)),
       Message := Some NewMessage\<rparr>"

text \<open>
  \<open>readEmailConfig\<close> does not use its receiver. In the else branch the source declares a
  second \<open>err\<close> with \<open>:=\<close>; the error made for a failed Unmarshal is assigned to that inner
  variable, and the function returns the outer one, which is still the nil of ReadFile.
\<close>

definition readEmailConfig :: "Env \<Rightarrow> string \<Rightarrow> EmailUser \<times> error" where
  "readEmailConfig env fn =
     (let rv = zeroEmailUser;
          (data, err) = ReadFile env fn
      in case err of
           Some x \<Rightarrow>
             (rv, Some (''Error(12023): File ('' @ fn @ '') missing or unreadable error: ''
                        @ x @ [newline]))
         | None \<Rightarrow>
             (let (rv1, err_inner) = Unmarshal env data rv;
                  err_inner1 =
                    (case err_inner of
                       Some y \<Rightarrow> Some (''Error(12002): Invalid format - '' @ y @ [newline])
                     | None \<Rightarrow> err_inner)
              in (rv1, err)))"

definition NewEmFile :: "Env \<Rightarrow> string \<Rightarrow> bool \<Rightarrow> World \<Rightarrow> panic + (ptr \<times> World)" where
  "NewEmFile env fn pe w =
     (let x = \<lparr>EmailCfgFn = fn, EmailConfig = zeroEmailUser, SmtpAuth = None, Message = None,
               Alt = None, Mixed = None, Err = None, altSetup = False, lineMaxLength = 500,
               printErrors = pe\<rparr>
      in case slice fn 0 1 of
           Inl p \<Rightarrow> Inl p
         | Inr s1 \<Rightarrow>
             (case (if s1 = ''/'' then Inr (readEmailConfig env (EmailCfgFn x))
                    else case slice fn 0 2 of
                           Inl p \<Rightarrow> Inl p
                         | Inr s2 \<Rightarrow>
                             if s2 = ''~/''
                             then (case slice_from (EmailCfgFn x) 2 of
                                     Inl p \<Rightarrow> Inl p
                                   | Inr rest \<Rightarrow>
                                       Inr (readEmailConfig env (HomeDir env @ ''/'' @ rest)))
                             else Inr (readEmailConfig env (''./'' @ EmailCfgFn x))) of
                Inl p \<Rightarrow> Inl p
              | Inr (cfg, err) \<Rightarrow>
                  (let x1 = x\<lparr>EmailConfig := cfg\<rparr>;
                       (x2, w1) =
                         (case err of
                            None \<Rightarrow> (x1, w)
                          | Some e \<Rightarrow>
                              (x1\<lparr>Err := err\<rparr>,
                               if printErrors x1 then Printf (e @ [newline]) w else w));
                       x3 = initEM x2
                   in Inr (Some (length (builders w1)), w1\<lparr>builders := builders w1 @ [x3]\<rparr>))))"

definition NewEm :: "EmailUser \<Rightarrow> World \<Rightarrow> ptr \<times> World" where
  "NewEm ec w =
     (let x = \<lparr>EmailCfgFn = [], EmailConfig = zeroEmailUser, SmtpAuth = None, Message = None,
               Alt = None, Mixed = None, Err = None, altSetup = False, lineMaxLength = 500,
               printErrors = True\<rparr>;
          x1 = x\<lparr>EmailConfig := ec\<rparr>;
          x2 = initEM x1
      in (Some (length (builders w)), w\<lparr>builders := builders w @ [x2]\<rparr>))"

subsection \<open>Settings, recipients and subject\<close>

definition SetMaxLineLength :: "ptr \<Rightarrow> int \<Rightarrow> World \<Rightarrow> panic + World" where
  "SetMaxLineLength this n w =
     (case deref (builders w) this of
        Inl p \<Rightarrow> Inl p
      | Inr em \<Rightarrow> Inr (store this (em\<lparr>lineMaxLength := n\<rparr>) w))"

definition SetPrintErrors :: "ptr \<Rightarrow> bool \<Rightarrow> World \<Rightarrow> panic + World" where
  "SetPrintErrors this b w =
     (case deref (builders w) this of
        Inl p \<Rightarrow> Inl p
      | Inr em \<Rightarrow> Inr (store this (em\<lparr>printErrors := b\<rparr>) w))"

definition To :: "ptr \<Rightarrow> string \<Rightarrow> string \<Rightarrow> World \<Rightarrow> panic + (ptr \<times> World)" where
  "To this addr name w =
     (case deref (builders w) this of
        Inl p \<Rightarrow> Inl p
      | Inr em \<Rightarrow>
          (case Message em of
             None \<Rightarrow> Inl NilPointerDereference
           | Some m \<Rightarrow>
               Inr (this, store this (em\<lparr>Message := Some (AddTo m (NewAddress addr name))\<rparr>) w)))"

definition Cc :: "ptr \<Rightarrow> string \<Rightarrow> string \<Rightarrow> World \<Rightarrow> panic + (ptr \<times> World)" where
  "Cc this addr name w =
     (case deref (builders w) this of
        Inl p \<Rightarrow> Inl p
      | Inr em \<Rightarrow>
          (case Message em of
             None \<Rightarrow> Inl NilPointerDereference
           | Some m \<Rightarrow>
               Inr (this, store this (em\<lparr>Message := Some (AddCc m (NewAddress addr name))\<rparr>) w)))"

definition Bcc :: "ptr \<Rightarrow> string \<Rightarrow> string \<Rightarrow> World \<Rightarrow> panic + (ptr \<times> World)" where
  "Bcc this addr name w =
     (case deref (builders w) this of
        Inl p \<Rightarrow> Inl p
      | Inr em \<Rightarrow>
          (case Message em of
             None \<Rightarrow> Inl NilPointerDereference
           | Some m \<Rightarrow>
               Inr (this, store this (em\<lparr>Message := Some (AddBcc m (NewAddress addr name))\<rparr>) w)))"

definition From :: "ptr \<Rightarrow> string \<Rightarrow> string \<Rightarrow> World \<Rightarrow> panic + (ptr \<times> World)" where
  "From this addr name w =
     (case deref (builders w) this of
        Inl p \<Rightarrow> Inl p
      | Inr em \<Rightarrow>
          (case Message em of
             None \<Rightarrow> Inl NilPointerDereference
           | Some m \<Rightarrow>
               Inr (this, store this (em\<lparr>Message := Some (m\<lparr>msgFrom := NewAddress addr name\<rparr>)\<rparr>) w)))"

definition Subject :: "ptr \<Rightarrow> string \<Rightarrow> World \<Rightarrow> panic + (ptr \<times> World)" where
  "Subject this s w =
     (case deref (builders w) this of
        Inl p \<Rightarrow> Inl p
      | Inr em \<Rightarrow>
          (case Message em of
             None \<Rightarrow> Inl NilPointerDereference
           | Some m \<Rightarrow> Inr (this, store this (em\<lparr>Message := Some (m\<lparr>msgSubject := s\<rparr>)\<rparr>) w)))"

subsection \<open>The body tree\<close>

definition doAltSetup :: "ptr \<Rightarrow> World \<Rightarrow> panic + World" where
  "doAltSetup this w =
     (case deref (builders w) this of
        Inl p \<Rightarrow> Inl p
      | Inr em \<Rightarrow>
          if \<not> altSetup em then
            (let em1 = em\<lparr>altSetup := True\<rparr>;
                 (a, w1) = NewMultiPart ''multipart/alternative'' w;
                 em2 = em1\<lparr>Alt := Some a\<rparr>;
                 (m, w2) = NewMultiPart ''multipart/mixed'' w1;
                 em3 = em2\<lparr>Mixed := Some m\<rparr>
             in case AddPart (Mixed em3) (Multi a) w2 of
                  Inl p \<Rightarrow> Inl p
                | Inr w3 \<Rightarrow> Inr (store this em3 w3))
          else Inr w)"

definition TextBody :: "ptr \<Rightarrow> string \<Rightarrow> World \<Rightarrow> panic + (ptr \<times> World)" where
  "TextBody this s w =
     (case doAltSetup this w of
        Inl p \<Rightarrow> Inl p
      | Inr w1 \<Rightarrow>
          (case deref (builders w1) this of
             Inl p \<Rightarrow> Inl p
           | Inr em \<Rightarrow>
               (let text1 = NewSimplePart;
                    text2 = AddHeader text1 ''Content-Type'' ''text/plain; charset=us-ascii'';
                    text3 = text2\<lparr>Content := s\<rparr>
                in case AddPart (Alt em) (Simple text3) w1 of
                     Inl p \<Rightarrow> Inl p
                   | Inr w2 \<Rightarrow> Inr (this, w2))))"

definition HtmlBody :: "ptr \<Rightarrow> string \<Rightarrow> World \<Rightarrow> panic + (ptr \<times> World)" where
  "HtmlBody this s w =
     (case doAltSetup this w of
        Inl p \<Rightarrow> Inl p
      | Inr w1 \<Rightarrow>
          (case deref (builders w1) this of
             Inl p \<Rightarrow> Inl p
           | Inr em \<Rightarrow>
               (let html1 = NewSimplePart;
                    html2 = AddHeader html1 ''Content-Type'' ''text/html; charset=us-ascii'';
                    html3 = html2\<lparr>Content := s\<rparr>
                in case AddPart (Alt em) (Simple html3) w1 of
                     Inl p \<Rightarrow> Inl p
                   | Inr w2 \<Rightarrow> Inr (this, w2))))"

text \<open>
  The loop of \<open>Attach\<close>: \<open>for i := 0; i < nbrLines; i++\<close> writes
  \<open>encoded[i*lineMaxLength:(i+1)*lineMaxLength]\<close> and a newline to the buffer.
\<close>

function Attach_loop :: "string \<Rightarrow> int \<Rightarrow> int \<Rightarrow> int \<Rightarrow> string \<Rightarrow> panic + string" where
  "Attach_loop encoded lml nbrLines i buf =
     (if i < nbrLines
      then (case slice encoded (i * lml) ((i + 1) * lml) of
              Inl p \<Rightarrow> Inl p
            | Inr s \<Rightarrow> Attach_loop encoded lml nbrLines (i + 1) (buf @ s @ [newline]))
      else Inr buf)"
  by pat_completeness auto
termination
  by (relation "measure (\<lambda>(encoded, lml, nbrLines, i, buf). nat (nbrLines - i))") auto

declare Attach_loop.simps [simp del]

definition Attach :: "Env \<Rightarrow> ptr \<Rightarrow> string \<Rightarrow> World \<Rightarrow> panic + (ptr \<times> World)" where
  "Attach env this fn w =
     (case doAltSetup this w of
        Inl p \<Rightarrow> Inl p
      | Inr w1 \<Rightarrow>
          (case deref (builders w1) this of
             Inl p \<Rightarrow> Inl p
           | Inr em \<Rightarrow>
               (let bfn = Base env fn;
                    ext = Ext env fn;
                    ct = TypeByExtension env ext;
                    attch1 = NewSimplePart;
                    attch2 = AddHeader attch1 ''Content-Type'' ct;
                    attch3 = AddHeader attch2 ''Content-Transfer-Encoding'' ''base64'';
                    attch4 = AddHeader attch3 ''Content-Disposition''
                               (''attachment; filename='' @ Quote env bfn);
                    (content, _) = ReadFile env fn;
                    encoded = EncodeToString env content
                in case go_quo (int (length encoded)) (lineMaxLength em) of
                     Inl p \<Rightarrow> Inl p
                   | Inr nbrLines \<Rightarrow>
                       (case Attach_loop encoded (lineMaxLength em) nbrLines 0 [] of
                          Inl p \<Rightarrow> Inl p
                        | Inr buf \<Rightarrow>
                            (case slice_from encoded (nbrLines * lineMaxLength em) of
                               Inl p \<Rightarrow> Inl p
                             | Inr rest \<Rightarrow>
                                 (let attch5 = attch4\<lparr>Content := buf @ rest\<rparr>
                                  in case AddPart (Mixed em) (Simple attch5) w1 of
                                       Inl p \<Rightarrow> Inl p
                                     | Inr w2 \<Rightarrow> Inr (this, w2)))))))"

subsection \<open>Sending\<close>

definition SendIt :: "Env \<Rightarrow> ptr \<Rightarrow> World \<Rightarrow> panic + (error \<times> World)" where
  "SendIt env this w =
     (case deref (builders w) this of
        Inl p \<Rightarrow> Inl p
      | Inr em \<Rightarrow>
          if \<not> altSetup em
          then Inr (Some ''Error(12022): Can not send an email without a body or attachments.'', w)
          else
            (case Message em of
               None \<Rightarrow> Inl NilPointerDereference
             | Some m \<Rightarrow>
                 (let m1 = SetBody m (Mixed em);
                      req = \<lparr>srAddr = EmailServer (EmailConfig em) @ '':''
                                       @ Itoa env (Port (EmailConfig em)),
                             srAuth = SmtpAuth em,
                             srFrom = Email (msgFrom m1),
                             srTo = Recipients m1,
                             srMsg = m1,
                             srParts = multiparts w\<rparr>;
                      err = SendMail env req;
                      w1 = w\<lparr>transport := transport w @ [req]\<rparr>;
                      (err1, em1, w2) =
                        (case err of
                           None \<Rightarrow> (err, em, w1)
                         | Some x \<Rightarrow>
                             (let e = ''Error(12021): SMTP Send Error: '' @ x;
                                  w2 = (if printErrors em then Printf (e @ [newline]) w1 else w1)
                              in (Some e, em\<lparr>Err := Some e\<rparr>, w2)));
                      em2 = em1\<lparr>Message := Some NewMessage\<rparr>
                  in Inr (err1, store this em2 w2))))"

section \<open>Calls and call sequences\<close>

text \<open>
  A client holds a builder and calls its methods one after the other. Each method gives back
  what its Go signature says: nothing (\<open>SetMaxLineLength\<close>, \<open>SetPrintErrors\<close>), a
  \<open>*EM\<close>, or an \<open>error\<close> (\<open>SendIt\<close>). In a chain \<open>x.To(..).Subject(..)\<close> the next
  receiver is the pointer the previous call returned; after a call that returns no builder
  the client goes on with the builder it holds.
\<close>

datatype call =
    CallSetMaxLineLength int
  | CallSetPrintErrors bool
  | CallTo string string
  | CallCc string string
  | CallBcc string string
  | CallFrom string string
  | CallSubject string
  | CallTextBody string
  | CallHtmlBody string
  | CallAttach string
  | CallSendIt

datatype ret = RetVoid | RetEM ptr | RetError error

definition retVoid :: "panic + World \<Rightarrow> panic + (ret \<times> World)" where
  "retVoid res = (case res of Inl p \<Rightarrow> Inl p | Inr w \<Rightarrow> Inr (RetVoid, w))"

definition retEM :: "panic + (ptr \<times> World) \<Rightarrow> panic + (ret \<times> World)" where
  "retEM res = (case res of Inl p \<Rightarrow> Inl p | Inr (r, w) \<Rightarrow> Inr (RetEM r, w))"

definition retError :: "panic + (error \<times> World) \<Rightarrow> panic + (ret \<times> World)" where
  "retError res = (case res of Inl p \<Rightarrow> Inl p | Inr (e, w) \<Rightarrow> Inr (RetError e, w))"

fun exec :: "Env \<Rightarrow> ptr \<Rightarrow> call \<Rightarrow> World \<Rightarrow> panic + (ret \<times> World)" where
  "exec env this (CallSetMaxLineLength n) w = retVoid (SetMaxLineLength this n w)"
| "exec env this (CallSetPrintErrors b) w = retVoid (SetPrintErrors this b w)"
| "exec env this (CallTo addr name) w = retEM (To this addr name w)"
| "exec env this (CallCc addr name) w = retEM (Cc this addr name w)"
| "exec env this (CallBcc addr name) w = retEM (Bcc this addr name w)"
| "exec env this (CallFrom addr name) w = retEM (From this addr name w)"
| "exec env this (CallSubject s) w = retEM (Subject this s w)"
| "exec env this (CallTextBody s) w = retEM (TextBody this s w)"
| "exec env this (CallHtmlBody s) w = retEM (HtmlBody this s w)"
| "exec env this (CallAttach fn) w = retEM (Attach env this fn w)"
| "exec env this CallSendIt w = retError (SendIt env this w)"

fun run :: "Env \<Rightarrow> ptr \<Rightarrow> call list \<Rightarrow> World \<Rightarrow> panic + World" where
  "run env this [] w = Inr w"
| "run env this (c # cs) w =
     (case exec env this c w of
        Inl p \<Rightarrow> Inl p
      | Inr (r, w') \<Rightarrow> run env (case r of RetEM q \<Rightarrow> q | _ \<Rightarrow> this) cs w')"

text \<open>The calls that add to the body: \<open>TextBody\<close>, \<open>HtmlBody\<close> and \<open>Attach\<close>.\<close>

fun is_body :: "call \<Rightarrow> bool" where
  "is_body (CallTextBody s) = True"
| "is_body (CallHtmlBody s) = True"
| "is_body (CallAttach fn) = True"
| "is_body c = False"

section \<open>Observations\<close>

text \<open>
  The invariant of a builder made by \<open>NewEm\<close> or \<open>NewEmFile\<close>: the address holds a
  builder, its message is allocated, and once \<open>altSetup\<close> is set both containers are
  allocated.
\<close>

definition valid :: "ptr \<Rightarrow> World \<Rightarrow> bool" where
  "valid this w =
     (case deref (builders w) this of
        Inl p \<Rightarrow> False
      | Inr em \<Rightarrow>
          Message em \<noteq> None \<and>
          (if altSetup em
           then (case (Alt em, Mixed em) of
                   (Some a, Some m) \<Rightarrow> a < length (multiparts w) \<and> m < length (multiparts w)
                 | _ \<Rightarrow> False)
           else True))"

text \<open>Whether the builder has its containers, that is, whether \<open>altSetup\<close> is set.\<close>

definition isSetUp :: "ptr \<Rightarrow> World \<Rightarrow> bool" where
  "isSetUp this w = (case deref (builders w) this of Inl p \<Rightarrow> False | Inr em \<Rightarrow> altSetup em)"

text \<open>The children of the builder's mixed container (none while it is nil).\<close>

definition mixedParts :: "ptr \<Rightarrow> World \<Rightarrow> BodyPart list" where
  "mixedParts this w =
     (case deref (builders w) this of
        Inl p \<Rightarrow> []
      | Inr em \<Rightarrow> (case deref (multiparts w) (Mixed em) of Inl p \<Rightarrow> [] | Inr mp \<Rightarrow> Parts mp))"

text \<open>
  The body tree a request carries: the containers reachable from the message body, read
  from the containers as they were when \<open>smtp.SendMail\<close> was called. The fuel bounds the
  depth; one more than the number of containers is enough for every tree without a cycle.
\<close>

datatype Tree = Leaf mbSimplePart | Node string "Tree list"

fun render :: "nat \<Rightarrow> mbMultiPart list \<Rightarrow> BodyPart \<Rightarrow> Tree option" where
  "render n h (Simple sp) = Some (Leaf sp)"
| "render 0 h (Multi a) = None"
| "render (Suc n) h (Multi a) =
     (if a < length h
      then map_option (Node (ContentType (h ! a))) (those (map (render n h) (Parts (h ! a))))
      else None)"

definition sentBody :: "SendReq \<Rightarrow> Tree option" where
  "sentBody r =
     (case msgBody (srMsg r) of
        None \<Rightarrow> None
      | Some b \<Rightarrow> render (Suc (length (srParts r))) (srParts r) (Multi b))"

definition sentBodies :: "panic + World \<Rightarrow> Tree option list" where
  "sentBodies res = (case res of Inl p \<Rightarrow> [] | Inr w \<Rightarrow> map sentBody (transport w))"

text \<open>The world a run ends in (the empty world when it panics).\<close>

definition theWorld :: "panic + World \<Rightarrow> World" where
  "theWorld res = (case res of Inl p \<Rightarrow> emptyWorld | Inr w \<Rightarrow> w)"

definition returned :: "panic + (ret \<times> World) \<Rightarrow> ret option" where
  "returned res = (case res of Inl p \<Rightarrow> None | Inr (r, w) \<Rightarrow> Some r)"

text \<open>The value of a header of the part a call to \<open>Attach\<close> appended last to the mixed container.\<close>

definition attachedHeader :: "panic + (ptr \<times> World) \<Rightarrow> string \<Rightarrow> string option" where
  "attachedHeader res k =
     (case res of
        Inl p \<Rightarrow> None
      | Inr (this, w) \<Rightarrow>
          (case rev (mixedParts this w) of
             Simple sp # ps \<Rightarrow> map_of (Headers sp) k
           | _ \<Rightarrow> None))"

text \<open>
  A caller may recover from a panic of \<open>Attach\<close> (a deferred \<open>recover()\<close> around the
  call) and go on with the builder. \<open>Attach\<close> writes to the store twice: through
  \<open>doAltSetup\<close>, its first statement, and through \<open>Mixed.AddPart\<close>, its last one;
  everything between reads only. So when the call panics after \<open>doAltSetup\<close> has
  returned, the store is the one \<open>doAltSetup\<close> left, and when \<open>doAltSetup\<close> itself
  panics (a nil receiver) nothing has been written.
\<close>

definition Attach_recovered :: "Env \<Rightarrow> ptr \<Rightarrow> string \<Rightarrow> World \<Rightarrow> World" where
  "Attach_recovered env this fn w =
     (case Attach env this fn w of
        Inr (r, w') \<Rightarrow> w'
      | Inl p \<Rightarrow> (case doAltSetup this w of Inl q \<Rightarrow> w | Inr w1 \<Rightarrow> w1))"

text \<open>The requests the transport has received when a call to \<open>SendIt\<close> is over.\<close>

definition sent :: "panic + (error \<times> World) \<Rightarrow> SendReq list" where
  "sent res = (case res of Inl p \<Rightarrow> [] | Inr (e, w) \<Rightarrow> transport w)"

section \<open>What the calls are expected to build\<close>

text \<open>The leaves \<open>TextBody\<close> and \<open>HtmlBody\<close> make.\<close>

definition textPart :: "string \<Rightarrow> mbSimplePart" where
  "textPart s = \<lparr>Headers = [(''Content-Type'', ''text/plain; charset=us-ascii'')], Content = s\<rparr>"

definition htmlPart :: "string \<Rightarrow> mbSimplePart" where
  "htmlPart s = \<lparr>Headers = [(''Content-Type'', ''text/html; charset=us-ascii'')], Content = s\<rparr>"

text \<open>
  The wrapping in closed form. \<open>chunk l enc k\<close> is the k-th full line of width \<open>l\<close>. For a
  positive width the content is every full line with a newline after it, then the
  remainder. For a negative width the quotient is not positive, the loop body never runs,
  and only the characters from \<open>nbrLines * lineMaxLength\<close> on are kept.
\<close>

definition chunk :: "nat \<Rightarrow> string \<Rightarrow> nat \<Rightarrow> string" where
  "chunk l enc k = take l (drop (k * l) enc)"

definition wrapped :: "int \<Rightarrow> string \<Rightarrow> string" where
  "wrapped l enc =
     (if 0 < l
      then concat (map (\<lambda>j. chunk (nat l) enc j @ [newline]) [0..<length enc div nat l])
           @ drop (length enc div nat l * nat l) enc
      else drop (length enc div nat (- l) * nat (- l)) enc)"

definition attachPart :: "Env \<Rightarrow> int \<Rightarrow> string \<Rightarrow> mbSimplePart" where
  "attachPart env l fn =
     \<lparr>Headers = [(''Content-Type'', TypeByExtension env (Ext env fn)),
                 (''Content-Transfer-Encoding'', ''base64''),
                 (''Content-Disposition'', ''attachment; filename='' @ Quote env (Base env fn))],
      Content = wrapped l (EncodeToString env (fst (ReadFile env fn)))\<rparr>"

fun leavesOf :: "call list \<Rightarrow> mbSimplePart list" where
  "leavesOf [] = []"
| "leavesOf (CallTextBody s # cs) = textPart s # leavesOf cs"
| "leavesOf (CallHtmlBody s # cs) = htmlPart s # leavesOf cs"
| "leavesOf (c # cs) = leavesOf cs"

fun attachmentsOf :: "Env \<Rightarrow> int \<Rightarrow> call list \<Rightarrow> mbSimplePart list" where
  "attachmentsOf env l [] = []"
| "attachmentsOf env l (CallAttach fn # cs) = attachPart env l fn # attachmentsOf env l cs"
| "attachmentsOf env l (c # cs) = attachmentsOf env l cs"

text \<open>
  The builder at \<open>this\<close> has its containers at the addresses \<open>a\<close> (alternative) and
  \<open>m\<close> (mixed); the alternative container holds exactly the given leaves, and the mixed
  container holds the alternative container first and then the given attachments.
\<close>

definition body_tree ::
  "ptr \<Rightarrow> World \<Rightarrow> nat \<Rightarrow> nat \<Rightarrow> mbSimplePart list \<Rightarrow> mbSimplePart list \<Rightarrow> bool" where
  "body_tree this w a m leaves atts =
     (case deref (builders w) this of
        Inl p \<Rightarrow> False
      | Inr em \<Rightarrow>
          altSetup em \<and> Alt em = Some a \<and> Mixed em = Some m \<and> a \<noteq> m \<and>
          a < length (multiparts w) \<and> m < length (multiparts w) \<and>
          multiparts w ! a = \<lparr>ContentType = ''multipart/alternative'', Parts = map Simple leaves\<rparr> \<and>
          multiparts w ! m = \<lparr>ContentType = ''multipart/mixed'', Parts = Multi a # map Simple atts\<rparr>)"

text \<open>The worlds \<open>doAltSetup\<close> and \<open>AddPart\<close> lead to, written out.\<close>

definition afterSetup :: "nat \<Rightarrow> World \<Rightarrow> World" where
  "afterSetup addr w =
     w\<lparr>multiparts := multiparts w @
          [\<lparr>ContentType = ''multipart/alternative'', Parts = []\<rparr>,
           \<lparr>ContentType = ''multipart/mixed'', Parts = [Multi (length (multiparts w))]\<rparr>],
       builders := (builders w)[addr := (builders w ! addr)
          \<lparr>altSetup := True, Alt := Some (length (multiparts w)),
           Mixed := Some (Suc (length (multiparts w)))\<rparr>]\<rparr>"

definition addPartAt :: "nat \<Rightarrow> BodyPart \<Rightarrow> World \<Rightarrow> World" where
  "addPartAt a part w =
     w\<lparr>multiparts :=
         (multiparts w)[a := (multiparts w ! a)\<lparr>Parts := Parts (multiparts w ! a) @ [part]\<rparr>]\<rparr>"

section \<open>A test double for the imported packages\<close>

text \<open>
  Concrete collaborators to run the builder on: a file system with three files, a JSON
  decoder that accepts the empty object only, the standard base64 alphabet with padding,
  decimal \<open>Itoa\<close>, a two-entry content-type table and a transport that accepts everything.
\<close>

definition encodeStd :: string where
  "encodeStd = ''ABCDEFGHIJKLMNOPQRSTUVWXYZabcdefghijklmnopqrstuvwxyz0123456789+/''"

fun stubEncode :: "string \<Rightarrow> string" where
  "stubEncode [] = []"
| "stubEncode [a] =
     (let x = (of_char a :: nat)
      in [encodeStd ! (x div 4), encodeStd ! ((x mod 4) * 16), CHR ''='', CHR ''=''])"
| "stubEncode [a, b] =
     (let x = (of_char a :: nat); y = (of_char b :: nat)
      in [encodeStd ! (x div 4), encodeStd ! ((x mod 4) * 16 + y div 16),
          encodeStd ! ((y mod 16) * 4), CHR ''=''])"
| "stubEncode (a # b # c # rest) =
     (let x = (of_char a :: nat); y = (of_char b :: nat); z = (of_char c :: nat)
      in [encodeStd ! (x div 4), encodeStd ! ((x mod 4) * 16 + y div 16),
          encodeStd ! ((y mod 16) * 4 + z div 64), encodeStd ! (z mod 64)]
         @ stubEncode rest)"

fun utoa :: "nat \<Rightarrow> string" where
  "utoa n = (if n < 10 then [char_of (48 + n)] else utoa (n div 10) @ [char_of (48 + n mod 10)])"

declare utoa.simps [simp del]

definition stubItoa :: "int \<Rightarrow> string" where
  "stubItoa i = (if i < 0 then CHR ''-'' # utoa (nat (- i)) else utoa (nat i))"

definition stubReadFile :: "string \<Rightarrow> string \<times> error" where
  "stubReadFile fn =
     (if fn = ''/etc/motd'' then (''hello world'', None)
      else if fn = ''/tmp/blob.xyz'' then (''Man'', None)
      else if fn = ''/tmp/empty.json'' then (''{}'', None)
      else if fn = ''/tmp/broken.json'' then (''{'', None)
      else ([], Some (''open '' @ fn @ '': no such file or directory'')))"

definition stubUnmarshal :: "string \<Rightarrow> EmailUser \<Rightarrow> EmailUser \<times> error" where
  "stubUnmarshal data rv =
     (if data = ''{}'' then (rv, None) else (rv, Some ''unexpected end of JSON input''))"

definition stubBase :: "string \<Rightarrow> string" where
  "stubBase fn = rev (takeWhile (\<lambda>c. c \<noteq> CHR ''/'') (rev fn))"

definition stubExt :: "string \<Rightarrow> string" where
  "stubExt fn =
     (let b = takeWhile (\<lambda>c. c \<noteq> CHR ''/'') (rev fn)
      in if CHR ''.'' \<in> set b then CHR ''.'' # rev (takeWhile (\<lambda>c. c \<noteq> CHR ''.'') b) else [])"

definition stubMimeTypes :: "string \<Rightarrow> string option" where
  "stubMimeTypes = map_of [(''.txt'', ''text/plain; charset=utf-8''), (''.pdf'', ''application/pdf'')]"

definition stubEnv :: Env where
  "stubEnv =
     \<lparr>ReadFile = stubReadFile, Unmarshal = stubUnmarshal, HomeDir = ''/home/u'',
      Base = stubBase, Ext = stubExt, mimeTypes = stubMimeTypes, EncodeToString = stubEncode,
      Quote = (\<lambda>s. [CHR 0x22] @ s @ [CHR 0x22]), Itoa = stubItoa, SendMail = (\<lambda>r. None)\<rparr>"

definition stubUser :: EmailUser where
  "stubUser = \<lparr>Username = ''user'', Password = ''pass'', EmailServer = ''smtp.example.com'', Port = 587\<rparr>"

text \<open>The world after \<open>NewEm(stubUser)\<close> and \<open>SetMaxLineLength(l)\<close>; the builder is at address 0.\<close>

definition stubWorld :: "int \<Rightarrow> World" where
  "stubWorld l =
     (case SetMaxLineLength (Some 0) l (snd (NewEm stubUser emptyWorld)) of
        Inl p \<Rightarrow> emptyWorld
      | Inr w \<Rightarrow> w)"

section \<open>The wrapping loop\<close>

lemma slice_chunk:
  assumes "0 < l" "Suc k * l \<le> length enc"
  shows "slice enc (int k * int l) ((int k + 1) * int l) = Inr (chunk l enc k)"
proof -
  have a: "(int k + 1) * int l = int (Suc k * l)" by (simp add: algebra_simps)
  have b: "int k * int l = int (k * l)" by simp
  have c: "k * l \<le> Suc k * l" by simp
  have d: "Suc k * l - k * l = l" by simp
  show ?thesis
    unfolding a b slice_def chunk_def using assms c d
    by (simp del: mult_Suc of_nat_mult add: nat_diff_distrib' flip: of_nat_diff)
qed

lemma Attach_loop_nat:
  assumes "0 < l" "n * l \<le> length enc" "k \<le> n"
  shows "Attach_loop enc (int l) (int n) (int k) buf
         = Inr (buf @ concat (map (\<lambda>j. chunk l enc j @ [newline]) [k..<n]))"
  using assms(3)
proof (induction "n - k" arbitrary: k buf)
  case 0
  then show ?case by (simp add: Attach_loop.simps)
next
  case (Suc d)
  then have kn: "k < n" and d: "d = n - Suc k" and le: "Suc k \<le> n" by simp_all
  have "Suc k * l \<le> n * l" using le by (simp del: mult_Suc)
  then have sl: "slice enc (int k * int l) ((int k + 1) * int l) = Inr (chunk l enc k)"
    using assms slice_chunk by simp
  have step: "Attach_loop enc (int l) (int n) (int k) buf
        = Attach_loop enc (int l) (int n) (int (Suc k)) (buf @ chunk l enc k @ [newline])"
    using kn sl by (subst Attach_loop.simps) (simp add: add.commute)
  show ?case
    unfolding step using Suc.hyps(1)[OF d le] kn
    by (simp add: upt_conv_Cons)
qed

lemma Attach_loop_done: "n \<le> i \<Longrightarrow> Attach_loop enc l n i buf = Inr buf"
  by (simp add: Attach_loop.simps)

lemma go_quo_pos: "0 < l \<Longrightarrow> go_quo (int n) (int l) = Inr (int (n div l))"
  by (simp add: go_quo_def zdiv_int sgn_if)

lemma go_quo_neg: "0 < l \<Longrightarrow> go_quo (int n) (- int l) = Inr (- int (n div l))"
  by (simp add: go_quo_def zdiv_int sgn_if)

lemma slice_from_nat: "k \<le> length s \<Longrightarrow> slice_from s (int k) = Inr (drop k s)"
  by (simp add: slice_from_def slice_def flip: of_nat_diff)

text \<open>
  With a width other than 0 the division, the loop and the final slice all succeed, and
  together they build the closed form.
\<close>

lemma wrap_steps:
  assumes "l \<noteq> 0"
  shows "\<exists>n buf rest. go_quo (int (length enc)) l = Inr n \<and> Attach_loop enc l n 0 [] = Inr buf
           \<and> slice_from enc (n * l) = Inr rest \<and> buf @ rest = wrapped l enc"
proof (cases "0 < l")
  case True
  define L where "L = nat l"
  have l: "l = int L" and L: "0 < L" using True by (simp_all add: L_def)
  define N where "N = length enc div L"
  have le: "N * L \<le> length enc" by (simp add: N_def)
  have q: "go_quo (int (length enc)) l = Inr (int N)"
    unfolding l N_def using L by (rule go_quo_pos)
  have lp: "Attach_loop enc l (int N) 0 [] = Inr (concat (map (\<lambda>j. chunk L enc j @ [newline]) [0..<N]))"
    using Attach_loop_nat[OF L le, of 0 "[]"] by (simp add: l)
  have sf: "slice_from enc (int N * l) = Inr (drop (N * L) enc)"
    using slice_from_nat[OF le] by (simp add: l)
  show ?thesis
    using q lp sf True by (simp add: wrapped_def L_def[symmetric] N_def[symmetric])
next
  case False
  define L where "L = nat (- l)"
  have l: "l = - int L" and L: "0 < L" using False assms by (simp_all add: L_def)
  define N where "N = length enc div L"
  have le: "N * L \<le> length enc" by (simp add: N_def)
  have q: "go_quo (int (length enc)) l = Inr (- int N)"
    unfolding l N_def using L by (rule go_quo_neg)
  have lp: "Attach_loop enc l (- int N) 0 [] = Inr []"
    by (rule Attach_loop_done) simp
  have sf: "slice_from enc (- int N * l) = Inr (drop (N * L) enc)"
    using slice_from_nat[OF le] by (simp add: l)
  show ?thesis
    using q lp sf False by (simp add: wrapped_def L_def[symmetric] N_def[symmetric])
qed

lemma concat_chunks: "n * l \<le> length enc \<Longrightarrow> concat (map (chunk l enc) [0..<n]) = take (n * l) enc"
proof (induction n)
  case 0
  then show ?case by simp
next
  case (Suc n)
  then have ih: "concat (map (chunk l enc) [0..<n]) = take (n * l) enc" by simp
  have "take (n * l + l) enc = take (n * l) enc @ take l (drop (n * l) enc)"
    by (rule take_add)
  then have "take (Suc n * l) enc = take (n * l) enc @ chunk l enc n"
    by (simp add: chunk_def add.commute)
  then show ?case
    using ih by simp
qed

lemma length_chunk: "Suc k * l \<le> length enc \<Longrightarrow> length (chunk l enc k) = l"
  by (simp add: chunk_def)

text \<open>
  For a positive width the closed form is a sequence of lines of exactly that width, each
  followed by a newline, and a shorter remainder; the lines and the remainder together are
  the encoded string.
\<close>

lemma wrapped_lines:
  assumes "0 < l"
  shows "\<exists>cs r. wrapped l enc = concat (map (\<lambda>c. c @ [newline]) cs) @ r
           \<and> concat cs @ r = enc
           \<and> (\<forall>c\<in>set cs. int (length c) = l)
           \<and> int (length r) < l"
proof -
  define L where "L = nat l"
  have L: "0 < L" and l: "l = int L" using assms by (simp_all add: L_def)
  define N where "N = length enc div L"
  define cs where "cs = map (chunk L enc) [0..<N]"
  define r where "r = drop (N * L) enc"
  have le: "N * L \<le> length enc" by (simp add: N_def)
  have w: "wrapped l enc = concat (map (\<lambda>c. c @ [newline]) cs) @ r"
    using assms by (simp add: wrapped_def cs_def r_def L_def N_def comp_def)
  have full: "concat cs @ r = enc"
    by (simp add: cs_def r_def concat_chunks[OF le])
  have len: "\<forall>c\<in>set cs. int (length c) = l"
  proof
    fix c assume "c \<in> set cs"
    then obtain k where k: "k < N" and c: "c = chunk L enc k" by (auto simp: cs_def)
    have "Suc k * L \<le> N * L" using k by (simp del: mult_Suc)
    then have "Suc k * L \<le> length enc" using le by simp
    then show "int (length c) = l" by (simp add: c length_chunk l)
  qed
  have "length r = length enc mod L"
    by (simp add: r_def N_def minus_div_mult_eq_mod)
  then have rem: "int (length r) < l" using L by (simp add: l)
  show ?thesis using w full len rem by blast
qed

lemma wrapped_short: "int (length enc) < l \<Longrightarrow> wrapped l enc = enc"
  by (cases "0 < l") (simp_all add: wrapped_def)

lemma wrapped_Nil: "wrapped l [] = []"
  by (simp add: wrapped_def)

section \<open>What each body call does to the store\<close>

lemma doAltSetup_first:
  assumes "addr < length (builders w)" "\<not> altSetup (builders w ! addr)"
  shows "doAltSetup (Some addr) w = Inr (afterSetup addr w)"
  using assms
  by (simp add: doAltSetup_def deref_def NewMultiPart_def AddPart_def store_def afterSetup_def
      Let_def nth_append)

lemma doAltSetup_later:
  assumes "addr < length (builders w)" "altSetup (builders w ! addr)"
  shows "doAltSetup (Some addr) w = Inr w"
  using assms by (simp add: doAltSetup_def deref_def)

lemma Attach_zero:
  assumes "doAltSetup this w = Inr w1" "deref (builders w1) this = Inr em" "lineMaxLength em = 0"
  shows "Attach env this fn w = Inl IntegerDivideByZero"
  using assms by (simp add: Attach_def go_quo_def Let_def split: prod.splits)

lemma Attach_nonzero:
  assumes "doAltSetup this w = Inr w1" "deref (builders w1) this = Inr em" "lineMaxLength em \<noteq> 0"
    "Mixed em = Some m" "m < length (multiparts w1)"
  shows "Attach env this fn w
         = Inr (this, addPartAt m (Simple (attachPart env (lineMaxLength em) fn)) w1)"
proof -
  obtain content e where rf: "ReadFile env fn = (content, e)"
    by (cases "ReadFile env fn")
  obtain n buf rest where
    "go_quo (int (length (EncodeToString env content))) (lineMaxLength em) = Inr n"
    "Attach_loop (EncodeToString env content) (lineMaxLength em) n 0 [] = Inr buf"
    "slice_from (EncodeToString env content) (n * lineMaxLength em) = Inr rest"
    "buf @ rest = wrapped (lineMaxLength em) (EncodeToString env content)"
    using wrap_steps[OF assms(3)] by blast
  then show ?thesis
    using assms rf
    by (simp add: Attach_def Let_def AddPart_def addPartAt_def attachPart_def AddHeader_def
        NewSimplePart_def)
qed

lemma TextBody_effect:
  assumes "doAltSetup this w = Inr w1" "deref (builders w1) this = Inr em"
    "Alt em = Some a" "a < length (multiparts w1)"
  shows "TextBody this s w = Inr (this, addPartAt a (Simple (textPart s)) w1)"
  using assms
  by (simp add: TextBody_def Let_def AddPart_def addPartAt_def textPart_def AddHeader_def
      NewSimplePart_def)

lemma HtmlBody_effect:
  assumes "doAltSetup this w = Inr w1" "deref (builders w1) this = Inr em"
    "Alt em = Some a" "a < length (multiparts w1)"
  shows "HtmlBody this s w = Inr (this, addPartAt a (Simple (htmlPart s)) w1)"
  using assms
  by (simp add: HtmlBody_def Let_def AddPart_def addPartAt_def htmlPart_def AddHeader_def
      NewSimplePart_def)

lemma deref_afterSetup:
  assumes "addr < length (builders w)"
  shows "deref (builders (afterSetup addr w)) (Some addr)
         = Inr ((builders w ! addr)\<lparr>altSetup := True, Alt := Some (length (multiparts w)),
                  Mixed := Some (Suc (length (multiparts w)))\<rparr>)"
  using assms by (simp add: afterSetup_def deref_def)

lemma multiparts_afterSetup:
  "multiparts (afterSetup addr w) = multiparts w @
     [\<lparr>ContentType = ''multipart/alternative'', Parts = []\<rparr>,
      \<lparr>ContentType = ''multipart/mixed'', Parts = [Multi (length (multiparts w))]\<rparr>]"
  by (simp add: afterSetup_def)

lemma builders_addPartAt: "builders (addPartAt a p w) = builders w"
  by (simp add: addPartAt_def)

lemma length_multiparts_addPartAt: "length (multiparts (addPartAt a p w)) = length (multiparts w)"
  by (simp add: addPartAt_def)

lemma validD:
  assumes "valid this w"
  obtains addr where "this = Some addr" "addr < length (builders w)"
    "deref (builders w) this = Inr (builders w ! addr)"
  using assms by (auto simp: valid_def deref_def split: option.splits if_splits)

text \<open>
  On a valid builder with a width other than 0, \<open>Attach\<close> returns its receiver, appends
  exactly one part to the mixed container, and leaves the recorded error, the width, the
  console and the transport as they were.
\<close>

lemma Attach_appends:
  assumes "valid this w" "deref (builders w) this = Inr em" "lineMaxLength em \<noteq> 0"
  shows "\<exists>w' em'. Attach env this fn w = Inr (this, w')
           \<and> valid this w'
           \<and> deref (builders w') this = Inr em'
           \<and> Err em' = Err em \<and> lineMaxLength em' = lineMaxLength em
           \<and> console w' = console w \<and> transport w' = transport w
           \<and> mixedParts this w'
               = (if altSetup em then mixedParts this w else [Multi (length (multiparts w))])
                 @ [Simple (attachPart env (lineMaxLength em) fn)]"
proof -
  obtain addr where th: "this = Some addr" and addr: "addr < length (builders w)"
    and d: "deref (builders w) this = Inr (builders w ! addr)"
    using assms(1) by (rule validD)
  have em: "em = builders w ! addr" using d assms(2) by simp
  show ?thesis
  proof (cases "altSetup em")
    case True
    then obtain a m where am: "Alt em = Some a" "Mixed em = Some m"
        "a < length (multiparts w)" "m < length (multiparts w)"
      using assms(1,2) by (auto simp: valid_def split: option.splits)
    have s: "doAltSetup this w = Inr w"
      unfolding th using addr True em by (simp add: doAltSetup_later)
    have "Attach env this fn w
          = Inr (this, addPartAt m (Simple (attachPart env (lineMaxLength em) fn)) w)"
      using Attach_nonzero[OF s assms(2) assms(3) am(2) am(4)] .
    then show ?thesis
      using True am assms(1,2) th addr
      by (simp add: valid_def mixedParts_def deref_def addPartAt_def)
  next
    case False
    have s: "doAltSetup this w = Inr (afterSetup addr w)"
      unfolding th using addr False em by (simp add: doAltSetup_first)
    let ?em1 = "em\<lparr>altSetup := True, Alt := Some (length (multiparts w)),
                  Mixed := Some (Suc (length (multiparts w)))\<rparr>"
    have d1: "deref (builders (afterSetup addr w)) this = Inr ?em1"
      unfolding th em using addr by (rule deref_afterSetup)
    have "Attach env this fn w
          = Inr (this, addPartAt (Suc (length (multiparts w)))
                   (Simple (attachPart env (lineMaxLength ?em1) fn)) (afterSetup addr w))"
      by (rule Attach_nonzero[OF s d1]) (use assms(3) in \<open>simp_all add: multiparts_afterSetup\<close>)
    then show ?thesis
      using False assms(1,2) th addr
      by (simp add: valid_def mixedParts_def deref_def addPartAt_def afterSetup_def nth_append)
  qed
qed

lemma Attach_zero_valid:
  assumes "valid this w" "deref (builders w) this = Inr em" "lineMaxLength em = 0"
  shows "Attach env this fn w = Inl IntegerDivideByZero"
proof -
  obtain addr where th: "this = Some addr" and addr: "addr < length (builders w)"
    and d: "deref (builders w) this = Inr (builders w ! addr)"
    using assms(1) by (rule validD)
  have em: "em = builders w ! addr" using d assms(2) by simp
  show ?thesis
  proof (cases "altSetup em")
    case True
    have s: "doAltSetup this w = Inr w"
      unfolding th using addr True em by (simp add: doAltSetup_later)
    show ?thesis by (rule Attach_zero[OF s assms(2) assms(3)])
  next
    case False
    have s: "doAltSetup this w = Inr (afterSetup addr w)"
      unfolding th using addr False em by (simp add: doAltSetup_first)
    have d1: "deref (builders (afterSetup addr w)) this
              = Inr (em\<lparr>altSetup := True, Alt := Some (length (multiparts w)),
                        Mixed := Some (Suc (length (multiparts w)))\<rparr>)"
      unfolding th em using addr by (rule deref_afterSetup)
    show ?thesis by (rule Attach_zero[OF s d1]) (simp add: assms(3))
  qed
qed

section \<open>The stub world\<close>

lemma stubWorld_eq:
  "stubWorld l =
     \<lparr>builders = [\<lparr>EmailCfgFn = [], EmailConfig = stubUser,
                    SmtpAuth = Some ([], ''user'', ''pass'', ''smtp.example.com''),
                    Message = Some NewMessage, Alt = None, Mixed = None, Err = None,
                    altSetup = False, lineMaxLength = l, printErrors = True\<rparr>],
      multiparts = [], transport = [], console = []\<rparr>"
  by (simp add: stubWorld_def SetMaxLineLength_def NewEm_def emptyWorld_def deref_def store_def
      initEM_def stubUser_def Let_def)

lemma valid_stubWorld: "valid (Some 0) (stubWorld l)"
  by (simp add: stubWorld_eq valid_def deref_def)

lemma deref_stubWorld: "deref (builders (stubWorld l)) (Some 0) = Inr (builders (stubWorld l) ! 0)"
  by (simp add: stubWorld_eq deref_def)

lemma width_stubWorld: "lineMaxLength (builders (stubWorld l) ! 0) = l"
  by (simp add: stubWorld_eq)

lemma fresh_stubWorld: "\<not> altSetup (builders (stubWorld l) ! 0)"
  by (simp add: stubWorld_eq)

section \<open>Attachments\<close>

text \<open>
  C4 (as amended). On a valid builder \<open>Attach\<close> panics exactly when the line width is 0:
  the quotient \<open>len(encoded) / lineMaxLength\<close> is computed with no guard. With any other
  width it returns its receiver, and with a width greater than the length of the encoded
  content the part it appends holds the encoded content unbroken.
\<close>

theorem Attach_panics_exactly_on_zero_width:
  assumes "valid this w" "deref (builders w) this = Inr em"
  shows "(lineMaxLength em = 0 \<longrightarrow> Attach env this fn w = Inl IntegerDivideByZero) \<and>
         (lineMaxLength em \<noteq> 0 \<longrightarrow> (\<exists>w'. Attach env this fn w = Inr (this, w'))) \<and>
         (int (length (EncodeToString env (fst (ReadFile env fn)))) < lineMaxLength em \<longrightarrow>
            (\<exists>w' sp. Attach env this fn w = Inr (this, w')
               \<and> mixedParts this w'
                   = (if altSetup em then mixedParts this w else [Multi (length (multiparts w))])
                     @ [Simple sp]
               \<and> Content sp = EncodeToString env (fst (ReadFile env fn))))"
proof (intro conjI impI)
  assume "lineMaxLength em = 0"
  then show "Attach env this fn w = Inl IntegerDivideByZero"
    using assms by (rule Attach_zero_valid[rotated 2])
next
  assume "lineMaxLength em \<noteq> 0"
  then show "\<exists>w'. Attach env this fn w = Inr (this, w')"
    using Attach_appends[OF assms] by blast
next
  assume big: "int (length (EncodeToString env (fst (ReadFile env fn)))) < lineMaxLength em"
  then have nz: "lineMaxLength em \<noteq> 0" by auto
  have "Content (attachPart env (lineMaxLength em) fn) = EncodeToString env (fst (ReadFile env fn))"
    using big by (simp add: attachPart_def wrapped_short)
  then show "\<exists>w' sp. Attach env this fn w = Inr (this, w')
               \<and> mixedParts this w'
                   = (if altSetup em then mixedParts this w else [Multi (length (multiparts w))])
                     @ [Simple sp]
               \<and> Content sp = EncodeToString env (fst (ReadFile env fn))"
    using Attach_appends[OF assms nz, of env fn] by blast
qed

theorem Attach_panics_exactly_on_zero_width_witness:
  "Attach stubEnv (Some 0) ''/etc/motd'' (stubWorld 0) = Inl IntegerDivideByZero \<and>
   (\<exists>w'. Attach stubEnv (Some 0) ''/etc/motd'' (stubWorld 4) = Inr (Some 0, w')) \<and>
   (\<exists>w' sp. Attach stubEnv (Some 0) ''/etc/motd'' (stubWorld 500) = Inr (Some 0, w')
      \<and> mixedParts (Some 0) w' = [Multi 0] @ [Simple sp]
      \<and> Content sp = ''aGVsbG8gd29ybGQ='')"
proof -
  have enc: "EncodeToString stubEnv (fst (ReadFile stubEnv ''/etc/motd'')) = ''aGVsbG8gd29ybGQ=''"
    by (simp add: stubEnv_def stubReadFile_def encodeStd_def)
  have a: "Attach stubEnv (Some 0) ''/etc/motd'' (stubWorld 0) = Inl IntegerDivideByZero"
    using Attach_panics_exactly_on_zero_width
      [OF valid_stubWorld deref_stubWorld, of 0 stubEnv "''/etc/motd''"]
    by (simp add: width_stubWorld)
  have b: "\<exists>w'. Attach stubEnv (Some 0) ''/etc/motd'' (stubWorld 4) = Inr (Some 0, w')"
    using Attach_panics_exactly_on_zero_width
      [OF valid_stubWorld deref_stubWorld, of 4 stubEnv "''/etc/motd''"]
    by (simp add: width_stubWorld)
  have c: "\<exists>w' sp. Attach stubEnv (Some 0) ''/etc/motd'' (stubWorld 500) = Inr (Some 0, w')
      \<and> mixedParts (Some 0) w' = [Multi 0] @ [Simple sp]
      \<and> Content sp = ''aGVsbG8gd29ybGQ=''"
    using Attach_panics_exactly_on_zero_width
      [OF valid_stubWorld deref_stubWorld, of 500 stubEnv "''/etc/motd''"]
    by (simp add: width_stubWorld enc) (simp add: stubWorld_eq)
  show ?thesis using a b c by blast
qed

text \<open>
  The claim C4 as stated fails: after \<open>SetMaxLineLength(0)\<close>, attaching a readable file
  panics with an integer divide by zero.
\<close>

theorem Attach_zero_width_counterexample:
  "run stubEnv (Some 0) [CallSetMaxLineLength 0, CallAttach ''/etc/motd'']
     (snd (NewEm stubUser emptyWorld)) = Inl IntegerDivideByZero"
  by (simp add: retVoid_def retEM_def SetMaxLineLength_def NewEm_def emptyWorld_def deref_def
      store_def initEM_def Let_def Attach_def doAltSetup_def NewMultiPart_def AddPart_def
      go_quo_def split: prod.splits)

text \<open>
  C5. For every file content and every positive \<open>lineMaxLength\<close>, \<open>Attach\<close> returns and
  appends one part whose content is the base64 encoding of the whole file, cut into lines
  of exactly \<open>lineMaxLength\<close> characters, each followed by a newline, and then the
  remainder, shorter than a line, with no newline after it. Nothing of the encoded string is
  lost or reordered. The content depends on the file and the width only: a second builder
  with the same width, whatever else its state, appends a part with the same content.
\<close>

theorem Attach_wraps_encoded:
  assumes "valid this w" "deref (builders w) this = Inr em" "0 < lineMaxLength em"
    and "valid this2 w2" "deref (builders w2) this2 = Inr em2"
    and "lineMaxLength em2 = lineMaxLength em"
  shows "\<exists>w' sp cs r w2' sp2.
           Attach env this fn w = Inr (this, w')
           \<and> mixedParts this w'
               = (if altSetup em then mixedParts this w else [Multi (length (multiparts w))])
                 @ [Simple sp]
           \<and> Content sp = concat (map (\<lambda>c. c @ [newline]) cs) @ r
           \<and> concat cs @ r = EncodeToString env (fst (ReadFile env fn))
           \<and> (\<forall>c\<in>set cs. int (length c) = lineMaxLength em)
           \<and> int (length r) < lineMaxLength em
           \<and> Attach env this2 fn w2 = Inr (this2, w2')
           \<and> mixedParts this2 w2'
               = (if altSetup em2 then mixedParts this2 w2 else [Multi (length (multiparts w2))])
                 @ [Simple sp2]
           \<and> Content sp2 = Content sp"
proof -
  let ?enc = "EncodeToString env (fst (ReadFile env fn))"
  let ?sp = "attachPart env (lineMaxLength em) fn"
  have nz: "lineMaxLength em \<noteq> 0" and nz2: "lineMaxLength em2 \<noteq> 0"
    using assms(3,6) by simp_all
  obtain w' where 1: "Attach env this fn w = Inr (this, w')"
    "mixedParts this w'
       = (if altSetup em then mixedParts this w else [Multi (length (multiparts w))]) @ [Simple ?sp]"
    using Attach_appends[OF assms(1,2) nz, of env fn] by blast
  obtain w2' where 2: "Attach env this2 fn w2 = Inr (this2, w2')"
    "mixedParts this2 w2'
       = (if altSetup em2 then mixedParts this2 w2 else [Multi (length (multiparts w2))])
         @ [Simple ?sp]"
    using Attach_appends[OF assms(4,5) nz2, of env fn] assms(6) by auto
  obtain cs r where 3: "wrapped (lineMaxLength em) ?enc = concat (map (\<lambda>c. c @ [newline]) cs) @ r"
    "concat cs @ r = ?enc" "\<forall>c\<in>set cs. int (length c) = lineMaxLength em"
    "int (length r) < lineMaxLength em"
    using wrapped_lines[OF assms(3), of ?enc] by blast
  have 4: "Content ?sp = concat (map (\<lambda>c. c @ [newline]) cs) @ r"
    using 3(1) by (simp add: attachPart_def)
  show ?thesis
    using 1 2 3(2,3,4) 4 by blast
qed

theorem Attach_wraps_encoded_witness:
  "\<exists>w' sp cs r w2' sp2.
     Attach stubEnv (Some 0) ''/etc/motd'' (stubWorld 5) = Inr (Some 0, w')
     \<and> mixedParts (Some 0) w' = [Multi 0] @ [Simple sp]
     \<and> Content sp = concat (map (\<lambda>c. c @ [newline]) cs) @ r
     \<and> concat cs @ r = ''aGVsbG8gd29ybGQ=''
     \<and> (\<forall>c\<in>set cs. int (length c) = 5)
     \<and> int (length r) < 5
     \<and> Attach stubEnv (Some 0) ''/etc/motd'' (stubWorld 5) = Inr (Some 0, w2')
     \<and> mixedParts (Some 0) w2' = [Multi 0] @ [Simple sp2]
     \<and> Content sp2 = Content sp"
proof -
  have enc: "EncodeToString stubEnv (fst (ReadFile stubEnv ''/etc/motd'')) = ''aGVsbG8gd29ybGQ=''"
    by (simp add: stubEnv_def stubReadFile_def encodeStd_def)
  have m: "mixedParts (Some 0) (stubWorld 5) = []" "multiparts (stubWorld 5) = []"
    by (simp_all add: stubWorld_eq mixedParts_def deref_def)
  show ?thesis
    using Attach_wraps_encoded
      [OF valid_stubWorld deref_stubWorld _ valid_stubWorld deref_stubWorld,
       of 5 5 stubEnv "''/etc/motd''"]
    unfolding width_stubWorld enc m
    by (simp add: fresh_stubWorld)
qed

text \<open>The content on a concrete file: three full lines of width 5 and the remainder.\<close>

lemma Attach_example:
  "\<exists>w'. Attach stubEnv (Some 0) ''/etc/motd'' (stubWorld 5) = Inr (Some 0, w')
     \<and> mixedParts (Some 0) w'
         = [Multi 0,
            Simple \<lparr>Headers = [(''Content-Type'', []),
                                (''Content-Transfer-Encoding'', ''base64''),
                                (''Content-Disposition'',
                                 ''attachment; filename='' @ [CHR 0x22] @ ''motd'' @ [CHR 0x22])],
                    Content = ''aGVsb'' @ [newline] @ ''G8gd2'' @ [newline] @ ''9ybGQ''
                              @ [newline] @ ''=''\<rparr>]"
proof -
  have enc: "EncodeToString stubEnv (fst (ReadFile stubEnv ''/etc/motd'')) = ''aGVsbG8gd29ybGQ=''"
    by (simp add: stubEnv_def stubReadFile_def encodeStd_def)
  have up: "[0..<3] = [0, 1, 2]" by (simp add: upt_rec)
  have p: "attachPart stubEnv 5 ''/etc/motd''
           = \<lparr>Headers = [(''Content-Type'', []),
                         (''Content-Transfer-Encoding'', ''base64''),
                         (''Content-Disposition'',
                          ''attachment; filename='' @ [CHR 0x22] @ ''motd'' @ [CHR 0x22])],
              Content = ''aGVsb'' @ [newline] @ ''G8gd2'' @ [newline] @ ''9ybGQ''
                        @ [newline] @ ''=''\<rparr>"
    unfolding attachPart_def enc
    by (simp add: wrapped_def chunk_def up TypeByExtension_def)
       (simp add: stubEnv_def stubExt_def stubBase_def stubMimeTypes_def)
  have m: "mixedParts (Some 0) (stubWorld 5) = []" "multiparts (stubWorld 5) = []"
    by (simp_all add: stubWorld_eq mixedParts_def deref_def)
  show ?thesis
    using Attach_appends[OF valid_stubWorld deref_stubWorld, of 5 stubEnv "''/etc/motd''"]
    unfolding width_stubWorld p m
    by (auto simp: fresh_stubWorld)
qed

text \<open>
  C6 (as amended). For a file whose extension has no entry in the content-type table,
  \<open>Attach\<close> (on a valid builder, with a width other than 0) sets the Content-Type header of
  the part to what \<open>mime.TypeByExtension\<close> returns, the empty string; nothing replaces it
  by application/octet-stream.
\<close>

theorem Attach_unknown_extension_empty_type:
  assumes "valid this w" "deref (builders w) this = Inr em" "lineMaxLength em \<noteq> 0"
    and "mimeTypes env (Ext env fn) = None"
  shows "\<exists>w' sp. Attach env this fn w = Inr (this, w')
           \<and> mixedParts this w'
               = (if altSetup em then mixedParts this w else [Multi (length (multiparts w))])
                 @ [Simple sp]
           \<and> Headers sp
               = [(''Content-Type'', []),
                  (''Content-Transfer-Encoding'', ''base64''),
                  (''Content-Disposition'', ''attachment; filename='' @ Quote env (Base env fn))]"
proof -
  have "Headers (attachPart env (lineMaxLength em) fn)
        = [(''Content-Type'', []),
           (''Content-Transfer-Encoding'', ''base64''),
           (''Content-Disposition'', ''attachment; filename='' @ Quote env (Base env fn))]"
    using assms(4) by (simp add: attachPart_def TypeByExtension_def)
  then show ?thesis
    using Attach_appends[OF assms(1,2,3), of env fn] by blast
qed

theorem Attach_unknown_extension_empty_type_witness:
  "mimeTypes stubEnv (Ext stubEnv ''/tmp/blob.xyz'') = None \<and>
   (\<exists>w' sp. Attach stubEnv (Some 0) ''/tmp/blob.xyz'' (stubWorld 500) = Inr (Some 0, w')
      \<and> mixedParts (Some 0) w' = [Multi 0] @ [Simple sp]
      \<and> Headers sp
          = [(''Content-Type'', []),
             (''Content-Transfer-Encoding'', ''base64''),
             (''Content-Disposition'',
              ''attachment; filename='' @ Quote stubEnv (Base stubEnv ''/tmp/blob.xyz''))])"
proof -
  have t: "mimeTypes stubEnv (Ext stubEnv ''/tmp/blob.xyz'') = None"
    by (simp add: stubEnv_def stubExt_def stubMimeTypes_def)
  have m: "mixedParts (Some 0) (stubWorld 500) = []" "multiparts (stubWorld 500) = []"
    by (simp_all add: stubWorld_eq mixedParts_def deref_def)
  show ?thesis
    using Attach_unknown_extension_empty_type
      [OF valid_stubWorld deref_stubWorld _ t, of 500]
    unfolding width_stubWorld m
    by (simp add: fresh_stubWorld t)
qed

text \<open>
  The claim C6 as stated fails: \<open>.xyz\<close> is not in the table, and the Content-Type header
  of the attached part is the empty string, not application/octet-stream.
\<close>

theorem Attach_unknown_extension_counterexample:
  "mimeTypes stubEnv (Ext stubEnv ''/tmp/blob.xyz'') = None \<and>
   attachedHeader (Attach stubEnv (Some 0) ''/tmp/blob.xyz'' (stubWorld 500)) ''Content-Type''
     = Some [] \<and>
   attachedHeader (Attach stubEnv (Some 0) ''/tmp/blob.xyz'' (stubWorld 500)) ''Content-Type''
     \<noteq> Some ''application/octet-stream''"
proof -
  have t: "mimeTypes stubEnv (Ext stubEnv ''/tmp/blob.xyz'') = None"
    by (simp add: stubEnv_def stubExt_def stubMimeTypes_def)
  have m: "mixedParts (Some 0) (stubWorld 500) = []" "multiparts (stubWorld 500) = []"
    by (simp_all add: stubWorld_eq mixedParts_def deref_def)
  obtain w' where a: "Attach stubEnv (Some 0) ''/tmp/blob.xyz'' (stubWorld 500) = Inr (Some 0, w')"
    and b: "mixedParts (Some 0) w' = [Multi 0] @ [Simple (attachPart stubEnv 500 ''/tmp/blob.xyz'')]"
    using Attach_appends[OF valid_stubWorld deref_stubWorld, of 500 stubEnv "''/tmp/blob.xyz''"]
    unfolding width_stubWorld m
    by (auto simp: fresh_stubWorld)
  have "attachedHeader (Attach stubEnv (Some 0) ''/tmp/blob.xyz'' (stubWorld 500)) ''Content-Type''
        = Some []"
    unfolding a by (simp add: attachedHeader_def b attachPart_def TypeByExtension_def t)
  then show ?thesis using t by simp
qed

text \<open>
  C7 (as amended). When the file cannot be read (\<open>ioutil.ReadFile\<close> gives no bytes and an
  error) and the width is not 0, \<open>Attach\<close> returns its receiver, leaves the recorded error
  and the console as they were, and appends a part whose content is the wrapped encoding of
  the empty byte sequence, which is empty when the encoder maps no bytes to no characters.
\<close>

theorem Attach_unreadable_file_is_silent:
  assumes "valid this w" "deref (builders w) this = Inr em" "lineMaxLength em \<noteq> 0"
    and "ReadFile env fn = ([], Some e)"
  shows "\<exists>w' em' sp. Attach env this fn w = Inr (this, w')
           \<and> deref (builders w') this = Inr em' \<and> Err em' = Err em
           \<and> console w' = console w
           \<and> mixedParts this w'
               = (if altSetup em then mixedParts this w else [Multi (length (multiparts w))])
                 @ [Simple sp]
           \<and> Content sp = wrapped (lineMaxLength em) (EncodeToString env [])
           \<and> (EncodeToString env [] = [] \<longrightarrow> Content sp = [])"
proof -
  have c: "Content (attachPart env (lineMaxLength em) fn)
           = wrapped (lineMaxLength em) (EncodeToString env [])"
    using assms(4) by (simp add: attachPart_def)
  then have "EncodeToString env [] = [] \<longrightarrow> Content (attachPart env (lineMaxLength em) fn) = []"
    by (simp add: wrapped_Nil)
  then show ?thesis
    using c Attach_appends[OF assms(1,2,3), of env fn] by blast
qed

theorem Attach_unreadable_file_is_silent_witness:
  "ReadFile stubEnv ''/no/such/file'' = ([], Some ''open /no/such/file: no such file or directory'') \<and>
   (\<exists>w' em' sp. Attach stubEnv (Some 0) ''/no/such/file'' (stubWorld 500) = Inr (Some 0, w')
      \<and> deref (builders w') (Some 0) = Inr em' \<and> Err em' = None
      \<and> console w' = []
      \<and> mixedParts (Some 0) w' = [Multi 0] @ [Simple sp]
      \<and> Content sp = [])"
proof -
  have r: "ReadFile stubEnv ''/no/such/file''
           = ([], Some ''open /no/such/file: no such file or directory'')"
    by (simp add: stubEnv_def stubReadFile_def)
  have e: "EncodeToString stubEnv [] = []" by (simp add: stubEnv_def)
  have m: "mixedParts (Some 0) (stubWorld 500) = []" "multiparts (stubWorld 500) = []"
    "Err (builders (stubWorld 500) ! 0) = None" "console (stubWorld 500) = []"
    by (simp_all add: stubWorld_eq mixedParts_def deref_def)
  show ?thesis
    using Attach_unreadable_file_is_silent[OF valid_stubWorld deref_stubWorld _ r, of 500]
    unfolding width_stubWorld m
    by (simp add: fresh_stubWorld e r wrapped_Nil)
qed

text \<open>
  The claim C7 as stated fails on a builder whose width is 0: attaching a missing file
  appends nothing, the call panics.
\<close>

theorem Attach_unreadable_file_counterexample:
  "ReadFile stubEnv ''/no/such/file'' = ([], Some ''open /no/such/file: no such file or directory'') \<and>
   Attach stubEnv (Some 0) ''/no/such/file'' (stubWorld 0) = Inl IntegerDivideByZero"
proof -
  have r: "ReadFile stubEnv ''/no/such/file''
           = ([], Some ''open /no/such/file: no such file or directory'')"
    by (simp add: stubEnv_def stubReadFile_def)
  have "Attach stubEnv (Some 0) ''/no/such/file'' (stubWorld 0) = Inl IntegerDivideByZero"
    by (rule Attach_zero_valid[OF valid_stubWorld deref_stubWorld]) (simp add: width_stubWorld)
  then show ?thesis using r by simp
qed

section \<open>The invariant\<close>

lemma valid_iff:
  "valid this w \<longleftrightarrow>
     (\<exists>addr. this = Some addr \<and> addr < length (builders w)
        \<and> Message (builders w ! addr) \<noteq> None
        \<and> (altSetup (builders w ! addr) \<longrightarrow>
              (\<exists>a m. Alt (builders w ! addr) = Some a \<and> Mixed (builders w ! addr) = Some m
                 \<and> a < length (multiparts w) \<and> m < length (multiparts w))))"
  by (cases this) (auto simp: valid_def deref_def split: option.splits)

lemma valid_store:
  assumes "valid this w" "deref (builders w) this = Inr em"
    and "altSetup em' = altSetup em" "Alt em' = Alt em" "Mixed em' = Mixed em"
    and "Message em' \<noteq> None"
  shows "valid this (store this em' w)"
    and "isSetUp this (store this em' w) = isSetUp this w"
    and "transport (store this em' w) = transport w"
    and "multiparts (store this em' w) = multiparts w"
proof -
  obtain addr where th: "this = Some addr" and addr: "addr < length (builders w)"
    and d: "deref (builders w) this = Inr (builders w ! addr)"
    using assms(1) by (rule validD)
  have em: "builders w ! addr = em" using d assms(2) by simp
  show "valid this (store this em' w)"
    using assms(1,3-6) th addr em by (simp add: valid_iff store_def)
  show "isSetUp this (store this em' w) = isSetUp this w"
    using assms(3) th addr em by (simp add: isSetUp_def store_def deref_def)
  show "transport (store this em' w) = transport w"
    by (simp add: store_def split: option.splits)
  show "multiparts (store this em' w) = multiparts w"
    by (simp add: store_def split: option.splits)
qed

lemma NewEm_valid:
  assumes "NewEm ec w = (this, w')"
  shows "valid this w' \<and> \<not> isSetUp this w' \<and> transport w' = transport w"
  using assms
  by (auto simp: NewEm_def valid_iff isSetUp_def deref_def initEM_def Let_def)

lemma NewEmFile_valid:
  assumes "NewEmFile env fn pe w = Inr (this, w')"
  shows "valid this w' \<and> \<not> isSetUp this w' \<and> transport w' = transport w"
  using assms
  by (auto simp: NewEmFile_def valid_iff isSetUp_def deref_def initEM_def Let_def Printf_def
      split: sum.splits prod.splits option.splits if_splits)

text \<open>
  The calls that neither touch the body nor send: on a valid builder each returns, keeps
  the invariant, and leaves the containers' flag and the transport as they were.
\<close>

lemma exec_plain:
  assumes "valid this w" "\<not> is_body c" "c \<noteq> CallSendIt"
  shows "\<exists>r w'. exec env this c w = Inr (r, w') \<and> (r = RetVoid \<or> r = RetEM this)
           \<and> valid this w' \<and> isSetUp this w' = isSetUp this w
           \<and> transport w' = transport w"
proof -
  obtain em where d: "deref (builders w) this = Inr em"
    using assms(1) by (auto elim: validD)
  obtain m where m: "Message em = Some m"
    using assms(1) d by (auto simp: valid_def)
  note st = valid_store[OF assms(1) d]
  show ?thesis
    using assms(2,3) d m
    by (cases c)
       (simp_all add: retVoid_def retEM_def SetMaxLineLength_def SetPrintErrors_def To_def
          Cc_def Bcc_def From_def Subject_def st)
qed

lemma doAltSetup_valid:
  assumes "valid this w"
  shows "\<exists>w1 em1 a m. doAltSetup this w = Inr w1 \<and> valid this w1 \<and> isSetUp this w1
           \<and> deref (builders w1) this = Inr em1 \<and> Alt em1 = Some a \<and> Mixed em1 = Some m
           \<and> a < length (multiparts w1) \<and> m < length (multiparts w1)
           \<and> transport w1 = transport w"
proof -
  obtain addr where th: "this = Some addr" and addr: "addr < length (builders w)"
    and d: "deref (builders w) this = Inr (builders w ! addr)"
    using assms by (rule validD)
  show ?thesis
  proof (cases "altSetup (builders w ! addr)")
    case True
    have "doAltSetup this w = Inr w"
      unfolding th using addr True by (rule doAltSetup_later)
    then show ?thesis
      using assms True th addr
      by (auto simp: valid_iff isSetUp_def deref_def)
  next
    case False
    have "doAltSetup this w = Inr (afterSetup addr w)"
      unfolding th using addr False by (rule doAltSetup_first)
    then show ?thesis
      using assms False th addr
      by (auto simp: valid_iff isSetUp_def deref_def afterSetup_def)
  qed
qed

lemma bodies_return:
  assumes "valid this w"
  shows "\<exists>w'. TextBody this s w = Inr (this, w') \<and> valid this w' \<and> transport w' = transport w"
    and "\<exists>w'. HtmlBody this s w = Inr (this, w') \<and> valid this w' \<and> transport w' = transport w"
proof -
  obtain w1 em1 a m where s: "doAltSetup this w = Inr w1" and v: "valid this w1"
    and d: "deref (builders w1) this = Inr em1" and a: "Alt em1 = Some a"
    "a < length (multiparts w1)" and t: "transport w1 = transport w"
    using doAltSetup_valid[OF assms] by blast
  have keep: "valid this (addPartAt a p w1) \<and> transport (addPartAt a p w1) = transport w" for p
    using v t by (auto simp: valid_iff addPartAt_def)
  show "\<exists>w'. TextBody this s w = Inr (this, w') \<and> valid this w' \<and> transport w' = transport w"
    using TextBody_effect[OF s d a] keep by auto
  show "\<exists>w'. HtmlBody this s w = Inr (this, w') \<and> valid this w' \<and> transport w' = transport w"
    using HtmlBody_effect[OF s d a] keep by auto
qed

text \<open>
  \<open>SendIt\<close> on a valid builder returns. It never touches the containers, the two
  pointers to them or the flag: whatever was in the body tree before the call is in it
  after the call.
\<close>

lemma SendIt_keeps_body:
  assumes "valid this w" "deref (builders w) this = Inr em"
  shows "\<exists>e w' em'. SendIt env this w = Inr (e, w')
           \<and> multiparts w' = multiparts w
           \<and> deref (builders w') this = Inr em'
           \<and> altSetup em' = altSetup em \<and> Alt em' = Alt em \<and> Mixed em' = Mixed em
           \<and> lineMaxLength em' = lineMaxLength em \<and> Message em' \<noteq> None"
proof -
  obtain addr where th: "this = Some addr" and addr: "addr < length (builders w)"
    and d: "deref (builders w) this = Inr (builders w ! addr)"
    using assms(1) by (rule validD)
  have em: "builders w ! addr = em" using d assms(2) by simp
  obtain m where m: "Message em = Some m"
    using assms by (auto simp: valid_def)
  show ?thesis
  proof (cases "altSetup em")
    case False
    then show ?thesis
      using assms m by (simp add: SendIt_def)
  next
    case True
    let ?req = "\<lparr>srAddr = EmailServer (EmailConfig em) @ '':'' @ Itoa env (Port (EmailConfig em)),
                 srAuth = SmtpAuth em,
                 srFrom = Email (msgFrom (SetBody m (Mixed em))),
                 srTo = Recipients (SetBody m (Mixed em)),
                 srMsg = SetBody m (Mixed em),
                 srParts = multiparts w\<rparr>"
    show ?thesis
    proof (cases "SendMail env ?req")
      case None
      then show ?thesis
        using assms(2) m True th addr
        by (simp add: SendIt_def Let_def store_def deref_def)
    next
      case (Some x)
      then show ?thesis
        using assms(2) m True th addr
        by (simp add: SendIt_def Let_def store_def deref_def Printf_def)
    qed
  qed
qed

lemma SendIt_returns:
  assumes "valid this w"
  shows "\<exists>e w'. SendIt env this w = Inr (e, w') \<and> valid this w'
           \<and> isSetUp this w' = isSetUp this w \<and> multiparts w' = multiparts w"
proof -
  obtain em where d: "deref (builders w) this = Inr em"
    using assms by (auto elim: validD)
  obtain e w' em' where r: "SendIt env this w = Inr (e, w')" "multiparts w' = multiparts w"
    "deref (builders w') this = Inr em'" "altSetup em' = altSetup em" "Alt em' = Alt em"
    "Mixed em' = Mixed em" "Message em' \<noteq> None"
    using SendIt_keeps_body[OF assms d, of env] by blast
  obtain addr where th: "this = Some addr" and addr: "addr < length (builders w)"
    and d0: "deref (builders w) this = Inr (builders w ! addr)"
    using assms by (rule validD)
  have "valid this w'"
    using assms d d0 r(2-7) th by (auto simp: valid_iff deref_def split: if_splits)
  moreover have "isSetUp this w' = isSetUp this w"
    using d r(3,4) by (simp add: isSetUp_def)
  ultimately show ?thesis using r(1,2) by blast
qed

text \<open>
  Without containers \<open>SendIt\<close> gives error 12022 and changes nothing: no request
  reaches the transport, and neither the builder nor the console is written.
\<close>

lemma SendIt_no_body:
  assumes "valid this w" "\<not> isSetUp this w"
  shows "SendIt env this w
         = Inr (Some ''Error(12022): Can not send an email without a body or attachments.'', w)"
  using assms
  by (auto simp: SendIt_def valid_iff isSetUp_def deref_def)

text \<open>Every call that returns keeps the invariant, and a returned builder is the receiver.\<close>

lemma exec_returns:
  assumes "valid this w" "deref (builders w) this = Inr em"
    and "(\<forall>fn. c \<noteq> CallAttach fn) \<or> lineMaxLength em \<noteq> 0"
  shows "\<exists>r w'. exec env this c w = Inr (r, w')"
proof (cases "is_body c \<or> c = CallSendIt")
  case False
  then show ?thesis using exec_plain[OF assms(1), of c env] by blast
next
  case True
  then consider s where "c = CallTextBody s" | s where "c = CallHtmlBody s"
    | fn where "c = CallAttach fn" | "c = CallSendIt"
    by (cases c) auto
  then show ?thesis
  proof cases
    case 1
    then show ?thesis using bodies_return(1)[OF assms(1), of s] by (auto simp: retEM_def)
  next
    case 2
    then show ?thesis using bodies_return(2)[OF assms(1), of s] by (auto simp: retEM_def)
  next
    case 3
    then show ?thesis
      using Attach_appends[OF assms(1,2), of env fn] assms(3) by (auto simp: retEM_def)
  next
    case 4
    then show ?thesis using SendIt_returns[OF assms(1), of env] by (auto simp: retError_def)
  qed
qed

lemma exec_valid:
  assumes "valid this w" "exec env this c w = Inr (r, w')"
  shows "valid this w' \<and> (case r of RetEM q \<Rightarrow> q = this | _ \<Rightarrow> True)"
proof (cases "is_body c \<or> c = CallSendIt")
  case False
  then show ?thesis using exec_plain[OF assms(1), of c env] assms(2) by auto
next
  case True
  then consider s where "c = CallTextBody s" | s where "c = CallHtmlBody s"
    | fn where "c = CallAttach fn" | "c = CallSendIt"
    by (cases c) auto
  then show ?thesis
  proof cases
    case 1
    then show ?thesis
      using bodies_return(1)[OF assms(1), of s] assms(2) by (auto simp: retEM_def)
  next
    case 2
    then show ?thesis
      using bodies_return(2)[OF assms(1), of s] assms(2) by (auto simp: retEM_def)
  next
    case 3
    obtain em where d: "deref (builders w) this = Inr em"
      using assms(1) by (auto elim: validD)
    have "lineMaxLength em \<noteq> 0"
      using Attach_zero_valid[OF assms(1) d, of env fn] assms(2) 3
      by (auto simp: retEM_def)
    then show ?thesis
      using Attach_appends[OF assms(1) d, of env fn] assms(2) 3
      by (auto simp: retEM_def)
  next
    case 4
    then show ?thesis
      using SendIt_returns[OF assms(1), of env] assms(2) by (auto simp: retError_def)
  qed
qed

lemma run_valid:
  assumes "valid this w" "run env this cs w = Inr w'"
  shows "valid this w'"
  using assms
proof (induction cs arbitrary: w)
  case Nil
  then show ?case by simp
next
  case (Cons c cs)
  obtain r w1 where e: "exec env this c w = Inr (r, w1)"
    using Cons.prems(2) by (auto split: sum.splits)
  have v: "valid this w1" and q: "case r of RetEM q \<Rightarrow> q = this | _ \<Rightarrow> True"
    using exec_valid[OF Cons.prems(1) e] by simp_all
  have "(case r of RetEM q \<Rightarrow> q | _ \<Rightarrow> this) = this"
    using q by (cases r) simp_all
  then have "run env this cs w1 = Inr w'"
    using Cons.prems(2) e by simp
  then show ?case by (rule Cons.IH[OF v])
qed

section \<open>Return values\<close>

text \<open>
  C9 (as amended). \<open>To\<close>, \<open>Cc\<close>, \<open>Bcc\<close>, \<open>From\<close>, \<open>Subject\<close>, \<open>TextBody\<close>,
  \<open>HtmlBody\<close> and \<open>Attach\<close> return their receiver, so they can be chained.
  \<open>SetMaxLineLength\<close> and \<open>SetPrintErrors\<close> return nothing, and \<open>SendIt\<close> returns an
  error value. On a valid builder every call returns, but for \<open>Attach\<close> with width 0.
\<close>

theorem fluent_calls_return_receiver:
  assumes "valid this w" "deref (builders w) this = Inr em"
  shows "((\<forall>fn. c \<noteq> CallAttach fn) \<or> lineMaxLength em \<noteq> 0
            \<longrightarrow> (\<exists>r w'. exec env this c w = Inr (r, w'))) \<and>
         (\<forall>r w'. exec env this c w = Inr (r, w') \<longrightarrow>
            (case c of
               CallSetMaxLineLength n \<Rightarrow> r = RetVoid
             | CallSetPrintErrors b \<Rightarrow> r = RetVoid
             | CallSendIt \<Rightarrow> (\<exists>e. r = RetError e)
             | _ \<Rightarrow> r = RetEM this))"
proof (intro conjI impI allI)
  assume "(\<forall>fn. c \<noteq> CallAttach fn) \<or> lineMaxLength em \<noteq> 0"
  then show "\<exists>r w'. exec env this c w = Inr (r, w')"
    by (rule exec_returns[OF assms])
next
  fix r w'
  assume e: "exec env this c w = Inr (r, w')"
  have q: "case r of RetEM q \<Rightarrow> q = this | _ \<Rightarrow> True"
    using exec_valid[OF assms(1) e] by simp
  show "case c of
          CallSetMaxLineLength n \<Rightarrow> r = RetVoid
        | CallSetPrintErrors b \<Rightarrow> r = RetVoid
        | CallSendIt \<Rightarrow> (\<exists>e. r = RetError e)
        | _ \<Rightarrow> r = RetEM this"
    using e q
    by (cases c) (auto simp: retVoid_def retEM_def retError_def split: sum.splits)
qed

theorem fluent_calls_return_receiver_witness:
  "returned (exec stubEnv (Some 0) (CallTo ''b@x.com'' ''B'') (stubWorld 500))
     = Some (RetEM (Some 0)) \<and>
   returned (exec stubEnv (Some 0) (CallAttach ''/etc/motd'') (stubWorld 500))
     = Some (RetEM (Some 0))"
proof -
  have a: "returned (exec stubEnv (Some 0) (CallTo ''b@x.com'' ''B'') (stubWorld 500))
           = Some (RetEM (Some 0))"
    using fluent_calls_return_receiver
      [OF valid_stubWorld deref_stubWorld, of "CallTo ''b@x.com'' ''B''" 500 stubEnv]
    by (auto simp: returned_def)
  have b: "returned (exec stubEnv (Some 0) (CallAttach ''/etc/motd'') (stubWorld 500))
           = Some (RetEM (Some 0))"
    using fluent_calls_return_receiver
      [OF valid_stubWorld deref_stubWorld, of "CallAttach ''/etc/motd''" 500 stubEnv]
    unfolding width_stubWorld
    by (auto simp: returned_def)
  show ?thesis using a b by simp
qed

text \<open>
  The claim C9 as stated fails: \<open>SetMaxLineLength\<close> has no result, so what it gives back
  is not the builder.
\<close>

theorem SetMaxLineLength_returns_nothing_counterexample:
  "returned (exec stubEnv (Some 0) (CallSetMaxLineLength 72) (stubWorld 500)) = Some RetVoid \<and>
   returned (exec stubEnv (Some 0) (CallSetMaxLineLength 72) (stubWorld 500))
     \<noteq> Some (RetEM (Some 0))"
  by (simp add: returned_def retVoid_def SetMaxLineLength_def stubWorld_eq deref_def store_def)

section \<open>Construction from a file\<close>

text \<open>
  C10. \<open>NewEmFile\<close> slices \<open>fn[0:1]\<close> and, unless that is a slash, \<open>fn[0:2]\<close> with no
  length check: the empty path and every one-character path other than the slash end in
  a slice-bounds panic, so no builder and no error come back.
\<close>

theorem NewEmFile_short_path_panics:
  "NewEmFile env [] pe w = Inl SliceBoundsOutOfRange \<and>
   (\<forall>c. c \<noteq> CHR ''/'' \<longrightarrow> NewEmFile env [c] pe w = Inl SliceBoundsOutOfRange)"
  by (simp add: NewEmFile_def slice_def)

theorem NewEmFile_short_path_panics_witness:
  "NewEmFile stubEnv [] True emptyWorld = Inl SliceBoundsOutOfRange \<and>
   CHR ''x'' \<noteq> CHR ''/'' \<and>
   NewEmFile stubEnv ''x'' True emptyWorld = Inl SliceBoundsOutOfRange"
  using NewEmFile_short_path_panics[of stubEnv True emptyWorld] by simp

text \<open>The path that is the slash alone passes both slices and yields a builder.\<close>

lemma NewEmFile_slash_returns: "\<exists>this w'. NewEmFile env ''/'' pe w = Inr (this, w')"
  by (auto simp: NewEmFile_def slice_def Let_def split: prod.splits option.splits)

section \<open>Loading the credentials file\<close>

text \<open>
  What \<open>readEmailConfig\<close> returns: for an unreadable file the zero value and error
  12023; for a readable file whatever \<open>json.Unmarshal\<close> left in the value and the nil
  error, whether or not Unmarshal failed.
\<close>

lemma readEmailConfig_unreadable:
  "ReadFile env fn = (data, Some x) \<Longrightarrow>
   readEmailConfig env fn
   = (zeroEmailUser,
      Some (''Error(12023): File ('' @ fn @ '') missing or unreadable error: '' @ x @ [newline]))"
  by (simp add: readEmailConfig_def)

lemma readEmailConfig_readable:
  "ReadFile env fn = (data, None) \<Longrightarrow>
   readEmailConfig env fn = (fst (Unmarshal env data zeroEmailUser), None)"
  by (simp add: readEmailConfig_def Let_def split: prod.splits)

text \<open>
  C1. The claim asks for an error on every malformed file. The file \<open>/tmp/broken.json\<close>
  is readable and malformed: the decoder fails on its content, and \<open>readEmailConfig\<close>
  still returns the nil error, with the value the decoder left.
\<close>

theorem readEmailConfig_malformed_returns_nil_error:
  "ReadFile stubEnv ''/tmp/broken.json'' = (''{'', None) \<and>
   Unmarshal stubEnv ''{'' zeroEmailUser = (zeroEmailUser, Some ''unexpected end of JSON input'') \<and>
   readEmailConfig stubEnv ''/tmp/broken.json'' = (zeroEmailUser, None)"
  by (simp add: readEmailConfig_def stubEnv_def stubReadFile_def stubUnmarshal_def Let_def)

text \<open>\<open>NewEmFile\<close> on that file records no error on the builder and prints nothing.\<close>

lemma NewEmFile_malformed_no_error:
  "\<exists>this w'. NewEmFile stubEnv ''/tmp/broken.json'' True emptyWorld = Inr (this, w')
     \<and> map Err (builders w') = [None] \<and> console w' = []"
  by (simp add: NewEmFile_def slice_def readEmailConfig_def stubEnv_def stubReadFile_def
      stubUnmarshal_def Let_def emptyWorld_def initEM_def)

section \<open>Sending without a body\<close>

lemma run_plain:
  assumes "valid this w" "\<not> isSetUp this w" "\<forall>c\<in>set calls. \<not> is_body c"
  shows "\<exists>w'. run env this calls w = Inr w' \<and> valid this w' \<and> \<not> isSetUp this w'
           \<and> transport w' = transport w"
  using assms
proof (induction calls arbitrary: w)
  case Nil
  then show ?case by simp
next
  case (Cons c cs)
  have nb: "\<not> is_body c" and rest: "\<forall>c\<in>set cs. \<not> is_body c"
    using Cons.prems(3) by simp_all
  show ?case
  proof (cases "c = CallSendIt")
    case True
    have "exec env this c w = Inr (RetError (Some
            ''Error(12022): Can not send an email without a body or attachments.''), w)"
      using SendIt_no_body[OF Cons.prems(1,2), of env] True by (simp add: retError_def)
    then show ?thesis
      using Cons.IH[OF Cons.prems(1,2) rest] by simp
  next
    case False
    obtain r w1 where e: "exec env this c w = Inr (r, w1)" and r: "r = RetVoid \<or> r = RetEM this"
      and v: "valid this w1" and s: "isSetUp this w1 = isSetUp this w"
      and t: "transport w1 = transport w"
      using exec_plain[OF Cons.prems(1) nb False, of env] by blast
    have next_receiver: "(case r of RetEM q \<Rightarrow> q | _ \<Rightarrow> this) = this"
      using r by auto
    have "\<not> isSetUp this w1" using s Cons.prems(2) by simp
    then show ?thesis
      using Cons.IH[OF v _ rest] e next_receiver t by simp
  qed
qed

text \<open>
  C3 (as amended). A builder comes from \<open>NewEm\<close> or \<open>NewEmFile\<close>. After any
  sequence of calls in which no \<open>TextBody\<close>, \<open>HtmlBody\<close> or \<open>Attach\<close> call has
  been started (settings, recipients, sender, subject, and also earlier attempts to send),
  \<open>SendIt\<close> returns error 12022 and leaves the world as it was; since the builder was
  made, the transport has not been called.
\<close>

theorem SendIt_without_body_fails:
  assumes "NewEm ec w0 = (this, w1) \<or> NewEmFile env fn pe w0 = Inr (this, w1)"
    and "\<forall>c\<in>set calls. \<not> is_body c"
  shows "\<exists>w2. run env this calls w1 = Inr w2
           \<and> SendIt env this w2
               = Inr (Some ''Error(12022): Can not send an email without a body or attachments.'',
                      w2)
           \<and> transport w2 = transport w0"
proof -
  have "valid this w1 \<and> \<not> isSetUp this w1 \<and> transport w1 = transport w0"
    using assms(1) NewEm_valid NewEmFile_valid by blast
  then have v: "valid this w1" and s: "\<not> isSetUp this w1" and t: "transport w1 = transport w0"
    by simp_all
  obtain w2 where r: "run env this calls w1 = Inr w2" "valid this w2" "\<not> isSetUp this w2"
    "transport w2 = transport w1"
    using run_plain[OF v s assms(2), of env] by blast
  show ?thesis
    using r t SendIt_no_body[OF r(2,3), of env] by simp
qed

theorem SendIt_without_body_fails_witness:
  "\<exists>w2. run stubEnv (Some 0)
           [CallFrom ''a@x.com'' ''A'', CallTo ''b@x.com'' ''B'', CallSubject ''Hi'',
            CallSetPrintErrors False, CallSendIt]
           (snd (NewEm stubUser emptyWorld)) = Inr w2
     \<and> SendIt stubEnv (Some 0) w2
         = Inr (Some ''Error(12022): Can not send an email without a body or attachments.'', w2)
     \<and> transport w2 = transport emptyWorld"
proof -
  have n: "NewEm stubUser emptyWorld = (Some 0, snd (NewEm stubUser emptyWorld))"
    by (simp add: NewEm_def emptyWorld_def Let_def)
  show ?thesis
    using SendIt_without_body_fails
      [of stubUser emptyWorld "Some 0" "snd (NewEm stubUser emptyWorld)" stubEnv "[]" True
          "[CallFrom ''a@x.com'' ''A'', CallTo ''b@x.com'' ''B'', CallSubject ''Hi'',
            CallSetPrintErrors False, CallSendIt]"]
      n
    by simp
qed

section \<open>The shape of the body tree\<close>

lemma body_treeD:
  assumes "body_tree this w a m ls as"
  obtains addr where "this = Some addr" "addr < length (builders w)"
    "altSetup (builders w ! addr)" "Alt (builders w ! addr) = Some a"
    "Mixed (builders w ! addr) = Some m" "a \<noteq> m"
    "a < length (multiparts w)" "m < length (multiparts w)"
    "multiparts w ! a = \<lparr>ContentType = ''multipart/alternative'', Parts = map Simple ls\<rparr>"
    "multiparts w ! m = \<lparr>ContentType = ''multipart/mixed'', Parts = Multi a # map Simple as\<rparr>"
  using assms by (cases this) (auto simp: body_tree_def deref_def split: if_splits)

lemma body_tree_afterSetup:
  assumes "addr < length (builders w)"
  shows "body_tree (Some addr) (afterSetup addr w) (length (multiparts w))
           (Suc (length (multiparts w))) [] []"
  using assms by (simp add: body_tree_def afterSetup_def deref_def nth_append)

lemma body_tree_add_leaf:
  assumes "body_tree this w a m ls as"
  shows "body_tree this (addPartAt a (Simple p) w) a m (ls @ [p]) as"
  using assms
  by (cases this) (auto simp: body_tree_def addPartAt_def deref_def split: if_splits)

lemma body_tree_add_attachment:
  assumes "body_tree this w a m ls as"
  shows "body_tree this (addPartAt m (Simple p) w) a m ls (as @ [p])"
  using assms
  by (cases this) (auto simp: body_tree_def addPartAt_def deref_def split: if_splits)

lemma leavesOf_Cons: "leavesOf (c # cs) = leavesOf [c] @ leavesOf cs"
  by (cases c) simp_all

lemma attachmentsOf_Cons: "attachmentsOf env l (c # cs) = attachmentsOf env l [c] @ attachmentsOf env l cs"
  by (cases c) simp_all

text \<open>
  A body call on a builder that has its containers: \<open>TextBody\<close> and \<open>HtmlBody\<close> append
  their leaf to the alternative container, \<open>Attach\<close> appends its part to the mixed
  container or, with width 0, panics. No container is allocated and the builder record
  is not written.
\<close>

lemma body_exec:
  assumes "body_tree this w a m ls as" "deref (builders w) this = Inr em" "is_body c"
  shows "(exec env this c w = Inl IntegerDivideByZero \<and> lineMaxLength em = 0
            \<and> (\<exists>fn. c = CallAttach fn))
         \<or> (\<exists>w'. exec env this c w = Inr (RetEM this, w')
              \<and> body_tree this w' a m (ls @ leavesOf [c])
                   (as @ attachmentsOf env (lineMaxLength em) [c])
              \<and> length (multiparts w') = length (multiparts w)
              \<and> builders w' = builders w
              \<and> ((\<forall>fn. c \<noteq> CallAttach fn) \<or> lineMaxLength em \<noteq> 0))"
proof -
  obtain addr where th: "this = Some addr" and addr: "addr < length (builders w)"
    and su: "altSetup (builders w ! addr)" and al: "Alt (builders w ! addr) = Some a"
    and mi: "Mixed (builders w ! addr) = Some m"
    and a: "a < length (multiparts w)" and m: "m < length (multiparts w)"
    using assms(1) by (rule body_treeD)
  have em: "builders w ! addr = em" using assms(2) th addr by (simp add: deref_def)
  have s: "doAltSetup this w = Inr w"
    unfolding th using addr su by (rule doAltSetup_later)
  consider s where "c = CallTextBody s" | s where "c = CallHtmlBody s"
    | fn where "c = CallAttach fn"
    using assms(3) by (cases c) auto
  then show ?thesis
  proof cases
    case 1
    have "TextBody this s w = Inr (this, addPartAt a (Simple (textPart s)) w)"
      using TextBody_effect[OF s assms(2) _ a] al em by simp
    then show ?thesis
      using 1 body_tree_add_leaf[OF assms(1), of "textPart s"]
      by (simp add: retEM_def length_multiparts_addPartAt builders_addPartAt)
  next
    case 2
    have "HtmlBody this s w = Inr (this, addPartAt a (Simple (htmlPart s)) w)"
      using HtmlBody_effect[OF s assms(2) _ a] al em by simp
    then show ?thesis
      using 2 body_tree_add_leaf[OF assms(1), of "htmlPart s"]
      by (simp add: retEM_def length_multiparts_addPartAt builders_addPartAt)
  next
    case 3
    show ?thesis
    proof (cases "lineMaxLength em = 0")
      case True
      then show ?thesis
        using 3 Attach_zero[OF s assms(2), of env fn] by (simp add: retEM_def)
    next
      case False
      have mi': "Mixed em = Some m" using mi em by simp
      have "Attach env this fn w
            = Inr (this, addPartAt m (Simple (attachPart env (lineMaxLength em) fn)) w)"
        by (rule Attach_nonzero[OF s assms(2) False mi' m])
      then show ?thesis
        using 3 False body_tree_add_attachment[OF assms(1), of "attachPart env (lineMaxLength em) fn"]
        by (simp add: retEM_def length_multiparts_addPartAt builders_addPartAt)
    qed
  qed
qed

text \<open>
  The first body call: \<open>doAltSetup\<close> allocates the two containers, and the rest of the
  call runs as it would on a builder that already has them.
\<close>

lemma body_exec_fresh:
  assumes "addr < length (builders w)" "\<not> altSetup (builders w ! addr)" "is_body c"
  shows "exec env (Some addr) c w = exec env (Some addr) c (afterSetup addr w)"
proof -
  have 1: "doAltSetup (Some addr) w = Inr (afterSetup addr w)"
    using assms(1,2) by (rule doAltSetup_first)
  have 2: "doAltSetup (Some addr) (afterSetup addr w) = Inr (afterSetup addr w)"
    by (rule doAltSetup_later) (use assms(1) in \<open>simp_all add: afterSetup_def\<close>)
  show ?thesis
    using assms(3)
    by (cases c) (simp_all add: TextBody_def HtmlBody_def Attach_def 1 2)
qed

lemma run_body:
  assumes "body_tree this w a m ls as" "deref (builders w) this = Inr em"
    and "\<forall>c\<in>set cs. is_body c"
  shows "(lineMaxLength em \<noteq> 0 \<or> (\<forall>fn. CallAttach fn \<notin> set cs)
            \<longrightarrow> (\<exists>w'. run env this cs w = Inr w')) \<and>
         (\<forall>w'. run env this cs w = Inr w' \<longrightarrow>
            body_tree this w' a m (ls @ leavesOf cs)
              (as @ attachmentsOf env (lineMaxLength em) cs)
            \<and> length (multiparts w') = length (multiparts w))"
  using assms
proof (induction cs arbitrary: w ls as)
  case Nil
  then show ?case by simp
next
  case (Cons c cs)
  have b: "is_body c" and rest: "\<forall>c\<in>set cs. is_body c" using Cons.prems(3) by simp_all
  consider (panic) fn where "exec env this c w = Inl IntegerDivideByZero"
      "lineMaxLength em = 0" "c = CallAttach fn"
    | (ok) w1 where "exec env this c w = Inr (RetEM this, w1)"
      "body_tree this w1 a m (ls @ leavesOf [c]) (as @ attachmentsOf env (lineMaxLength em) [c])"
      "length (multiparts w1) = length (multiparts w)" "builders w1 = builders w"
      "(\<forall>fn. c \<noteq> CallAttach fn) \<or> lineMaxLength em \<noteq> 0"
    using body_exec[OF Cons.prems(1,2) b, of env] by blast
  then show ?case
  proof cases
    case panic
    then show ?thesis by auto
  next
    case ok
    have d1: "deref (builders w1) this = Inr em" using Cons.prems(2) ok(4) by simp
    have r: "run env this (c # cs) w = run env this cs w1" using ok(1) by simp
    note ih = Cons.IH[OF ok(2) d1 rest]
    show ?thesis
      unfolding r
      using ih ok(3,5)
      by (auto simp: leavesOf_Cons[of c cs] attachmentsOf_Cons[of env _ c cs])
  qed
qed

lemma render_leaves: "those (map (render n h) (map Simple ps)) = Some (map Leaf ps)"
  by (induction ps) simp_all

text \<open>Read as a tree from the mixed container, such a body is mixed over alternative.\<close>

lemma body_tree_render:
  assumes "body_tree this w a m ls as"
  shows "render (Suc (Suc n)) (multiparts w) (Multi m)
         = Some (Node ''multipart/mixed''
                   (Node ''multipart/alternative'' (map Leaf ls) # map Leaf as))"
proof -
  obtain addr where a: "a < length (multiparts w)" and m: "m < length (multiparts w)"
    and pa: "multiparts w ! a = \<lparr>ContentType = ''multipart/alternative'', Parts = map Simple ls\<rparr>"
    and pm: "multiparts w ! m = \<lparr>ContentType = ''multipart/mixed'', Parts = Multi a # map Simple as\<rparr>"
    using assms by (rule body_treeD)
  have ra: "render (Suc n) (multiparts w) (Multi a)
            = Some (Node ''multipart/alternative'' (map Leaf ls))"
    using a pa by (simp add: render_leaves del: map_map)
  show ?thesis
    using m pm ra by (simp add: render_leaves del: map_map)
qed

text \<open>
  C8 (as amended). Start from a builder that has no containers yet and make any non-empty
  sequence of \<open>TextBody\<close>, \<open>HtmlBody\<close> and \<open>Attach\<close> calls. The sequence returns
  if the width is not 0 or nothing is attached. Whenever it returns, the builder's mixed
  container is multipart/mixed, its first child is the builder's multipart/alternative
  container, which holds the text and HTML leaves in call order, and its other children
  are the attachments in call order. Exactly two containers have been allocated, and they
  are the ones the first call alone allocates, at the same addresses.
\<close>

theorem body_tree_built_once:
  assumes "deref (builders w) this = Inr em" "\<not> altSetup em"
    and "calls \<noteq> []" "\<forall>c\<in>set calls. is_body c"
  shows "(lineMaxLength em \<noteq> 0 \<or> (\<forall>fn. CallAttach fn \<notin> set calls)
            \<longrightarrow> (\<exists>w'. run env this calls w = Inr w')) \<and>
         (\<forall>w'. run env this calls w = Inr w' \<longrightarrow>
            body_tree this w' (length (multiparts w)) (Suc (length (multiparts w)))
              (leavesOf calls) (attachmentsOf env (lineMaxLength em) calls)
            \<and> length (multiparts w') = length (multiparts w) + 2
            \<and> (\<exists>w1. run env this [hd calls] w = Inr w1
                 \<and> body_tree this w1 (length (multiparts w)) (Suc (length (multiparts w)))
                      (leavesOf [hd calls]) (attachmentsOf env (lineMaxLength em) [hd calls])
                 \<and> length (multiparts w1) = length (multiparts w) + 2))"
proof -
  obtain addr where th: "this = Some addr" and addr: "addr < length (builders w)"
    and em: "builders w ! addr = em"
    using assms(1) by (cases this) (auto simp: deref_def split: if_splits)
  obtain c cs where calls: "calls = c # cs" using assms(3) by (cases calls) auto
  have b: "is_body c" using assms(4) calls by simp
  let ?w0 = "afterSetup addr w"
  let ?em0 = "em\<lparr>altSetup := True, Alt := Some (length (multiparts w)),
                  Mixed := Some (Suc (length (multiparts w)))\<rparr>"
  have fresh: "\<not> altSetup (builders w ! addr)" using assms(2) em by simp
  have ex: "exec env this c w = exec env this c ?w0"
    unfolding th using addr fresh b by (rule body_exec_fresh)
  have run_eq: "run env this (c # xs) w = run env this (c # xs) ?w0" for xs
    using ex by simp
  have t0: "body_tree this ?w0 (length (multiparts w)) (Suc (length (multiparts w))) [] []"
    unfolding th using addr by (rule body_tree_afterSetup)
  have d0: "deref (builders ?w0) this = Inr ?em0"
    unfolding th using deref_afterSetup[OF addr] em by simp
  have l0: "lineMaxLength ?em0 = lineMaxLength em" by simp
  have len0: "length (multiparts ?w0) = length (multiparts w) + 2"
    by (simp add: multiparts_afterSetup)
  note all = run_body[OF t0 d0, of calls env, unfolded l0 len0 calls run_eq[symmetric]]
  have one: "\<forall>c'\<in>set [c]. is_body c'" using b by simp
  note first = run_body[OF t0 d0 one, of env, unfolded l0 len0 run_eq[symmetric]]
  have allb: "\<forall>c'\<in>set (c # cs). is_body c'" using assms(4) calls by simp
  show ?thesis
    unfolding calls
  proof (intro conjI impI allI)
    assume "lineMaxLength em \<noteq> 0 \<or> (\<forall>fn. CallAttach fn \<notin> set (c # cs))"
    then show "\<exists>w'. run env this (c # cs) w = Inr w'"
      using all allb by simp
  next
    fix w'
    assume r: "run env this (c # cs) w = Inr w'"
    show "body_tree this w' (length (multiparts w)) (Suc (length (multiparts w)))
            (leavesOf (c # cs)) (attachmentsOf env (lineMaxLength em) (c # cs))"
      using all allb r by simp
    show "length (multiparts w') = length (multiparts w) + 2"
      using all allb r by simp
    have "\<exists>r1 w1. exec env this c w = Inr (r1, w1)"
      using r by (auto split: sum.splits)
    then have ok: "lineMaxLength em \<noteq> 0 \<or> (\<forall>fn. c \<noteq> CallAttach fn)"
      using body_exec[OF t0 d0 b, of env] ex by auto
    then obtain w1 where r1: "run env this [c] w = Inr w1"
      using first by auto
    then show "\<exists>w1. run env this [hd (c # cs)] w = Inr w1
         \<and> body_tree this w1 (length (multiparts w)) (Suc (length (multiparts w)))
              (leavesOf [hd (c # cs)]) (attachmentsOf env (lineMaxLength em) [hd (c # cs)])
         \<and> length (multiparts w1) = length (multiparts w) + 2"
      using first by auto
  qed
qed

theorem body_tree_built_once_witness:
  "\<exists>w'. run stubEnv (Some 0)
           [CallTextBody ''hello'', CallAttach ''/etc/motd'', CallHtmlBody ''hi'']
           (stubWorld 4) = Inr w'
     \<and> body_tree (Some 0) w' 0 1 [textPart ''hello'', htmlPart ''hi'']
          [attachPart stubEnv 4 ''/etc/motd'']
     \<and> length (multiparts w') = 2"
proof -
  have m: "multiparts (stubWorld 4) = []"
    by (simp add: stubWorld_eq)
  have f: "\<not> altSetup (builders (stubWorld 4) ! 0)"
    by (rule fresh_stubWorld)
  show ?thesis
    using body_tree_built_once
      [OF deref_stubWorld f, of "[CallTextBody ''hello'', CallAttach ''/etc/motd'', CallHtmlBody ''hi'']"
         stubEnv]
    unfolding width_stubWorld m
    by auto
qed

text \<open>
  The claim C8 as stated fails in two ways. With width 0 a sequence that attaches a file
  panics, so the attachment is not appended. And in the message lifecycle that follows a
  send, the first body call allocates no container (there are two before it and two after
  it), and the alternative container holds the leaf of the message already sent before the
  new one.
\<close>

theorem body_tree_counterexample:
  "run stubEnv (Some 0) [CallTextBody ''hello'', CallAttach ''/etc/motd''] (stubWorld 0)
     = Inl IntegerDivideByZero \<and>
   length (multiparts (theWorld
     (run stubEnv (Some 0)
        [CallFrom ''a@x.com'' ''A'', CallTo ''b@x.com'' ''B'', CallTextBody ''a'', CallSendIt]
        (stubWorld 500)))) = 2 \<and>
   length (multiparts (theWorld
     (run stubEnv (Some 0)
        [CallFrom ''a@x.com'' ''A'', CallTo ''b@x.com'' ''B'', CallTextBody ''a'', CallSendIt,
         CallTextBody ''b'']
        (stubWorld 500)))) = 2 \<and>
   body_tree (Some 0)
     (theWorld
        (run stubEnv (Some 0)
           [CallFrom ''a@x.com'' ''A'', CallTo ''b@x.com'' ''B'', CallTextBody ''a'', CallSendIt,
            CallTextBody ''b'']
           (stubWorld 500)))
     0 1 [textPart ''a'', textPart ''b''] []"
proof -
  have z: "run stubEnv (Some 0) [CallTextBody ''hello'', CallAttach ''/etc/motd''] (stubWorld 0)
           = Inl IntegerDivideByZero"
    by (simp add: retEM_def stubWorld_eq TextBody_def Attach_def doAltSetup_def NewMultiPart_def
        AddPart_def deref_def store_def Let_def go_quo_def split: prod.splits)
  have s: "length (multiparts (theWorld
     (run stubEnv (Some 0)
        [CallFrom ''a@x.com'' ''A'', CallTo ''b@x.com'' ''B'', CallTextBody ''a'', CallSendIt]
        (stubWorld 500)))) = 2"
    by (simp add: theWorld_def retEM_def retError_def stubWorld_eq From_def To_def TextBody_def
        SendIt_def doAltSetup_def NewMultiPart_def AddPart_def deref_def store_def Let_def
        stubEnv_def stubUser_def)
  have t: "length (multiparts (theWorld
     (run stubEnv (Some 0)
        [CallFrom ''a@x.com'' ''A'', CallTo ''b@x.com'' ''B'', CallTextBody ''a'', CallSendIt,
         CallTextBody ''b'']
        (stubWorld 500)))) = 2 \<and>
   body_tree (Some 0)
     (theWorld
        (run stubEnv (Some 0)
           [CallFrom ''a@x.com'' ''A'', CallTo ''b@x.com'' ''B'', CallTextBody ''a'', CallSendIt,
            CallTextBody ''b'']
           (stubWorld 500)))
     0 1 [textPart ''a'', textPart ''b''] []"
    by (simp add: theWorld_def body_tree_def retEM_def retError_def stubWorld_eq From_def To_def
        TextBody_def SendIt_def doAltSetup_def NewMultiPart_def AddPart_def deref_def store_def
        Let_def stubEnv_def stubUser_def textPart_def AddHeader_def NewSimplePart_def)
  show ?thesis using z s t by simp
qed

section \<open>Sending twice\<close>

text \<open>
  After \<open>SendIt\<close> the containers still hold what they held: a body call made after a
  send appends to the parts of the message already sent.
\<close>

lemma body_survives_send:
  assumes "valid this w" "body_tree this w a m ls as"
  shows "\<exists>e w1 w2. SendIt env this w = Inr (e, w1)
           \<and> body_tree this w1 a m ls as
           \<and> TextBody this s w1 = Inr (this, w2)
           \<and> body_tree this w2 a m (ls @ [textPart s]) as"
proof -
  obtain em where d: "deref (builders w) this = Inr em"
    using assms(1) by (auto elim: validD)
  obtain e w1 em1 where r: "SendIt env this w = Inr (e, w1)" "multiparts w1 = multiparts w"
    "deref (builders w1) this = Inr em1" "altSetup em1 = altSetup em" "Alt em1 = Alt em"
    "Mixed em1 = Mixed em"
    using SendIt_keeps_body[OF assms(1) d, of env] by blast
  have t1: "body_tree this w1 a m ls as"
    using assms(2) d r(2-6) by (simp add: body_tree_def)
  have b: "is_body (CallTextBody s)" by simp
  obtain w2 where "exec env this (CallTextBody s) w1 = Inr (RetEM this, w2)"
    "body_tree this w2 a m (ls @ leavesOf [CallTextBody s])
       (as @ attachmentsOf env (lineMaxLength em1) [CallTextBody s])"
    using body_exec[OF t1 r(3) b, of env] by auto
  then have "TextBody this s w1 = Inr (this, w2)" "body_tree this w2 a m (ls @ [textPart s]) as"
    by (auto simp: retEM_def split: sum.splits)
  then show ?thesis using r(1) t1 by blast
qed

text \<open>
  C2. Build a message with \<open>TextBody("a")\<close> and send it, then build a second one with
  \<open>TextBody("b")\<close> and send it; the transport accepts both. The body of the second
  request holds the leaf "a" and then the leaf "b": \<open>SendIt\<close> renews the message and leaves
  \<open>altSetup\<close>, \<open>Alt\<close> and \<open>Mixed\<close> alone.
\<close>

theorem second_message_carries_first_body:
  "sentBodies
     (run stubEnv (Some 0)
        [CallFrom ''a@x.com'' ''A'', CallTo ''b@x.com'' ''B'', CallTextBody ''a'', CallSendIt,
         CallFrom ''a@x.com'' ''A'', CallTo ''b@x.com'' ''B'', CallTextBody ''b'', CallSendIt]
        (snd (NewEm stubUser emptyWorld)))
   = [Some (Node ''multipart/mixed''
              [Node ''multipart/alternative'' [Leaf (textPart ''a'')]]),
      Some (Node ''multipart/mixed''
              [Node ''multipart/alternative'' [Leaf (textPart ''a''), Leaf (textPart ''b'')]])]"
  by (simp add: sentBodies_def sentBody_def retEM_def retError_def NewEm_def emptyWorld_def
      initEM_def From_def To_def TextBody_def SendIt_def doAltSetup_def NewMultiPart_def
      AddPart_def deref_def store_def Let_def stubEnv_def textPart_def AddHeader_def
      NewSimplePart_def SetBody_def NewMessage_def AddTo_def NewAddress_def Recipients_def)

section \<open>Sending after a recovered panic\<close>

text \<open>
  With width 0 and no containers yet, \<open>Attach\<close> panics after \<open>doAltSetup\<close> has set the
  flag and before anything is added. A caller that recovers holds a builder whose mixed
  container has the empty alternative container as its only child, and \<open>SendIt\<close> on it
  passes the \<open>altSetup\<close> test and calls the transport.
\<close>

lemma recovered_Attach_opens_gate:
  assumes "valid this w" "deref (builders w) this = Inr em" "\<not> altSetup em"
    and "lineMaxLength em = 0"
  shows "Attach env this fn w = Inl IntegerDivideByZero"
    and "body_tree this (Attach_recovered env this fn w) (length (multiparts w))
           (Suc (length (multiparts w))) [] []"
    and "\<exists>e w'. SendIt env this (Attach_recovered env this fn w) = Inr (e, w')
           \<and> length (transport w') = Suc (length (transport w))"
proof -
  obtain addr where th: "this = Some addr" and addr: "addr < length (builders w)"
    and d: "deref (builders w) this = Inr (builders w ! addr)"
    using assms(1) by (rule validD)
  have em: "builders w ! addr = em" using d assms(2) by simp
  obtain m where m: "Message em = Some m"
    using assms(1,2) by (auto simp: valid_def)
  show p: "Attach env this fn w = Inl IntegerDivideByZero"
    by (rule Attach_zero_valid[OF assms(1,2,4)])
  have s: "doAltSetup this w = Inr (afterSetup addr w)"
    unfolding th using addr assms(3) em by (simp add: doAltSetup_first)
  have "Attach_recovered env this fn w = afterSetup addr w"
    by (simp add: Attach_recovered_def p s)
  then have r: "Attach_recovered env (Some addr) fn w = afterSetup addr w"
    by (simp add: th)
  show "body_tree this (Attach_recovered env this fn w) (length (multiparts w))
          (Suc (length (multiparts w))) [] []"
    by (simp add: th r body_tree_afterSetup[OF addr])
  let ?em1 = "em\<lparr>altSetup := True, Alt := Some (length (multiparts w)),
                Mixed := Some (Suc (length (multiparts w)))\<rparr>"
  have d1: "deref (builders (afterSetup addr w)) this = Inr ?em1"
    unfolding th using deref_afterSetup[OF addr] em by simp
  have t1: "transport (afterSetup addr w) = transport w"
    by (simp add: afterSetup_def)
  let ?req = "\<lparr>srAddr = EmailServer (EmailConfig em) @ '':'' @ Itoa env (Port (EmailConfig em)),
               srAuth = SmtpAuth em,
               srFrom = Email (msgFrom (SetBody m (Some (Suc (length (multiparts w)))))),
               srTo = Recipients (SetBody m (Some (Suc (length (multiparts w))))),
               srMsg = SetBody m (Some (Suc (length (multiparts w)))),
               srParts = multiparts (afterSetup addr w)\<rparr>"
  show "\<exists>e w'. SendIt env this (Attach_recovered env this fn w) = Inr (e, w')
          \<and> length (transport w') = Suc (length (transport w))"
  proof (cases "SendMail env ?req")
    case None
    then show ?thesis
      using d1 m t1
      by (simp add: th r SendIt_def Let_def store_def)
  next
    case (Some x)
    then show ?thesis
      using d1 m t1
      by (simp add: th r SendIt_def Let_def store_def Printf_def)
  qed
qed

text \<open>
  The claim C3 as stated fails. On a builder with width 0 a call to \<open>Attach\<close> panics and
  is recovered: no text body, HTML body or attachment has been added (the alternative
  container is empty and is the only child of the mixed container). \<open>SendIt\<close> then
  returns the nil error, and the transport has received one request, whose body is the
  empty tree.
\<close>

theorem SendIt_after_recovered_Attach_counterexample:
  "Attach stubEnv (Some 0) ''/etc/motd''
     (theWorld (run stubEnv (Some 0) [CallFrom ''a@x.com'' ''A'', CallTo ''b@x.com'' ''B'']
                  (stubWorld 0)))
     = Inl IntegerDivideByZero \<and>
   body_tree (Some 0)
     (Attach_recovered stubEnv (Some 0) ''/etc/motd''
        (theWorld (run stubEnv (Some 0) [CallFrom ''a@x.com'' ''A'', CallTo ''b@x.com'' ''B'']
                     (stubWorld 0))))
     0 1 [] [] \<and>
   returned (retError (SendIt stubEnv (Some 0)
     (Attach_recovered stubEnv (Some 0) ''/etc/motd''
        (theWorld (run stubEnv (Some 0) [CallFrom ''a@x.com'' ''A'', CallTo ''b@x.com'' ''B'']
                     (stubWorld 0))))))
     = Some (RetError None) \<and>
   map sentBody (sent (SendIt stubEnv (Some 0)
     (Attach_recovered stubEnv (Some 0) ''/etc/motd''
        (theWorld (run stubEnv (Some 0) [CallFrom ''a@x.com'' ''A'', CallTo ''b@x.com'' ''B'']
                     (stubWorld 0))))))
     = [Some (Node ''multipart/mixed'' [Node ''multipart/alternative'' []])]"
proof -
  define w where
    "w = theWorld (run stubEnv (Some 0) [CallFrom ''a@x.com'' ''A'', CallTo ''b@x.com'' ''B'']
                     (stubWorld 0))"
  have w: "w = \<lparr>builders = [\<lparr>EmailCfgFn = [], EmailConfig = stubUser,
                    SmtpAuth = Some ([], ''user'', ''pass'', ''smtp.example.com''),
                    Message = Some (NewMessage\<lparr>msgFrom := \<lparr>Email = ''a@x.com'', Name = ''A''\<rparr>,
                                               msgTo := [\<lparr>Email = ''b@x.com'', Name = ''B''\<rparr>]\<rparr>),
                    Alt = None, Mixed = None, Err = None,
                    altSetup = False, lineMaxLength = 0, printErrors = True\<rparr>],
      multiparts = [], transport = [], console = []\<rparr>"
    by (simp add: w_def theWorld_def retEM_def stubWorld_eq From_def To_def deref_def store_def
        AddTo_def NewAddress_def NewMessage_def)
  have a: "Attach stubEnv (Some 0) ''/etc/motd'' w = Inl IntegerDivideByZero"
    by (simp add: w Attach_def doAltSetup_def NewMultiPart_def AddPart_def deref_def store_def
        Let_def go_quo_def split: prod.splits)
  have s: "doAltSetup (Some 0) w = Inr (afterSetup 0 w)"
    by (rule doAltSetup_first) (simp_all add: w)
  have r: "Attach_recovered stubEnv (Some 0) ''/etc/motd'' w = afterSetup 0 w"
    by (simp add: Attach_recovered_def a s)
  have b: "body_tree (Some 0) (afterSetup 0 w) 0 1 [] []"
    using body_tree_afterSetup[of 0 w] by (simp add: w)
  have c: "returned (retError (SendIt stubEnv (Some 0) (afterSetup 0 w))) = Some (RetError None)"
    by (simp add: returned_def retError_def SendIt_def afterSetup_def w deref_def store_def
        Let_def stubEnv_def)
  have d: "map sentBody (sent (SendIt stubEnv (Some 0) (afterSetup 0 w)))
           = [Some (Node ''multipart/mixed'' [Node ''multipart/alternative'' []])]"
    by (simp add: sent_def sentBody_def SendIt_def afterSetup_def w deref_def store_def
        Let_def stubEnv_def SetBody_def NewMessage_def)
  show ?thesis
    using a b c d unfolding w_def[symmetric] r by simp
qed

section \<open>Two runs on the test double\<close>

text \<open>
  The scenario of the spec: credentials for \<open>smtp.example.com:587\<close>, then
  \<open>From("a@x.com","A").To("b@x.com","B").Subject("Hi").TextBody("hello").SendIt()\<close>.
  The transport is called once, with that address, sender and recipient, and a body that
  holds one text leaf.
\<close>

lemma send_scenario:
  "\<exists>w. run stubEnv (Some 0)
          [CallFrom ''a@x.com'' ''A'', CallTo ''b@x.com'' ''B'', CallSubject ''Hi'',
           CallTextBody ''hello'', CallSendIt]
          (snd (NewEm stubUser emptyWorld)) = Inr w
     \<and> map srAddr (transport w) = [''smtp.example.com:587'']
     \<and> map srFrom (transport w) = [''a@x.com'']
     \<and> map srTo (transport w) = [[''b@x.com'']]
     \<and> map sentBody (transport w)
         = [Some (Node ''multipart/mixed''
                    [Node ''multipart/alternative'' [Leaf (textPart ''hello'')]])]
     \<and> map Err (builders w) = [None]"
proof -
  have i: "stubItoa 587 = ''587''" by code_simp
  show ?thesis
    by (simp add: sentBody_def retEM_def retError_def NewEm_def emptyWorld_def
        initEM_def From_def To_def Subject_def TextBody_def SendIt_def doAltSetup_def
        NewMultiPart_def AddPart_def deref_def store_def Let_def stubEnv_def textPart_def
        AddHeader_def NewSimplePart_def SetBody_def NewMessage_def AddTo_def NewAddress_def
        Recipients_def stubUser_def i)
qed

text \<open>
  A home-relative path is read below the home directory; the file is missing, and the
  builder comes back with error 12023 recorded and printed.
\<close>

lemma NewEmFile_missing_file:
  "\<exists>w. NewEmFile stubEnv ''~/cfg.json'' True emptyWorld = Inr (Some 0, w)
     \<and> map Err (builders w)
         = [Some (''Error(12023): File (/home/u/cfg.json) missing or unreadable error: ''
                  @ ''open /home/u/cfg.json: no such file or directory'' @ [newline])]
     \<and> length (console w) = 1
     \<and> map EmailConfig (builders w) = [zeroEmailUser]"
  by (simp add: NewEmFile_def slice_def slice_from_def readEmailConfig_def stubEnv_def
      stubReadFile_def Let_def emptyWorld_def initEM_def Printf_def)

end
